theory Spec2Isabelle
  imports Main "HOL-Library.Sublist"
begin

section \<open>Data model\<close>

text \<open>
  The pipeline orchestrators (\<^verbatim>\<open>services/orchestrator.ts\<close>,
  \<^verbatim>\<open>services/collections/collectionOrchestrator.ts\<close>,
  \<^verbatim>\<open>services/collections/collectionAnalyzer.ts\<close> and the collection lesson service) are
  sequences of calls to a relational store and to external adapters. The store is a
  record of tables (lists of rows, in insertion order); identifiers are opaque and are
  modelled as naturals; timestamps are logical (the number of store round trips so far).
\<close>

type_synonym uuid = nat
type_synonym timestamp = nat

text \<open>
  A thrown value is either a JavaScript \<^verbatim>\<open>Error\<close> object built by the code
  (\<^verbatim>\<open>throw new Error(msg)\<close>) or the error object returned by the store client and
  re-thrown as it is (\<^verbatim>\<open>throw sourceError\<close>).
\<close>

datatype error = Error string | StoreError string

datatype source_type = Youtube | Pdf | Pptx
datatype source_status = Pending | Processing | Completed | Failed
datatype collection_status = Building | Analyzing | Ready | CollectionFailed
datatype course_status = Draft | Review | Published | Archived
datatype objective_type = Terminal | Enabling
datatype blooms_level = Remember | Understand | Apply | Analyze | Evaluate | Create

subsection \<open>The generated lesson tree (\<^verbatim>\<open>GeneratedLesson\<close>)\<close>

record activity =
  a_instructionMethod :: string
  a_description :: string
  a_duration :: string
  a_resources :: string

record objective =
  o_type :: objective_type
  o_content :: string
  o_bloomsLevel :: blooms_level
  o_sourceIds :: "uuid list"
  o_activities :: "activity list"

record lesson_module =
  m_moduleNumber :: int
  m_title :: string
  m_description :: string
  m_duration :: string
  m_objectives :: "objective list"

record lesson_metadata =
  md_collectionId :: uuid
  md_sourcesUsed :: "uuid list"
  md_synthesisStrategy :: string

record lesson =
  l_title :: string
  l_description :: string
  l_course_code :: "string option"
  l_iata_category :: "string option"
  l_total_duration_minutes :: "nat option"
  l_modules :: "lesson_module list"
  l_metadata :: "lesson_metadata option"

subsection \<open>Adapter results\<close>

text \<open>
  \<^verbatim>\<open>SourceAnalysis\<close>: the analysis payload is JSON and is kept as text; the cost, a
  floating-point number, is left out.
\<close>

record source_analysis =
  sourceId :: uuid
  analysisData :: string
  processingTime :: nat
  modelUsed :: string

text \<open>\<^verbatim>\<open>CrossSourceSynthesis\<close>: the keys of \<^verbatim>\<open>sourceContributions\<close>, the strategy and the rest as text.\<close>

record synthesis =
  sourceContributions :: "uuid list"
  synthesisStrategy :: string
  synthesisBody :: string

subsection \<open>Rows\<close>

record source_row =
  s_id :: uuid
  s_organization_id :: "uuid option"
  s_source_type :: source_type
  s_source_url :: string
  s_title :: string
  s_status :: source_status
  s_updated_at :: timestamp

record analysis_row =
  sa_id :: uuid
  sa_source_id :: uuid
  sa_analysis_type :: string
  sa_analysis_data :: string
  sa_processing_time :: nat
  sa_model_used :: string
  sa_created_at :: timestamp

record collection_row =
  sc_id :: uuid
  sc_organization_id :: uuid
  sc_title :: string
  sc_description :: string
  sc_status :: collection_status
  sc_analysis_completed_at :: "timestamp option"

record link_row =
  cs_id :: uuid
  cs_collection_id :: uuid
  cs_source_id :: uuid
  cs_order_index :: int

text \<open>
  Of a \<^verbatim>\<open>collection_analyses\<close> row, the processing time and the estimated cost
  (wall-clock and floating-point bookkeeping) and the model name are left out.
\<close>

record collection_analysis_row =
  ca_id :: uuid
  ca_collection_id :: uuid
  ca_analysis_type :: string
  ca_analysis_data :: synthesis
  ca_sources_analyzed :: nat
  ca_created_at :: timestamp

record course_row =
  c_id :: uuid
  c_organization_id :: uuid
  c_collection_id :: "uuid option"
  c_title :: string
  c_description :: string
  c_course_code :: "string option"
  c_iata_category :: "string option"
  c_total_duration_minutes :: "nat option"
  c_status :: course_status

record module_row =
  mo_id :: uuid
  mo_course_id :: uuid
  mo_module_number :: int
  mo_title :: string
  mo_description :: string
  mo_duration :: string

record mapping_row =
  lm_id :: uuid
  lm_source_id :: uuid
  lm_module_id :: uuid

record objective_row =
  lo_id :: uuid
  lo_module_id :: uuid
  lo_objective_type :: objective_type
  lo_content :: string
  lo_blooms_level :: blooms_level
  lo_order_index :: nat

record activity_row =
  la_id :: uuid
  la_learning_objective_id :: uuid
  la_instruction_method :: string
  la_description :: string
  la_duration :: string
  la_resources :: string
  la_order_index :: nat

subsection \<open>The store\<close>

record store =
  calls :: nat
  sources :: "source_row list"
  source_analyses :: "analysis_row list"
  source_collections :: "collection_row list"
  collection_sources :: "link_row list"
  collection_analyses :: "collection_analysis_row list"
  courses :: "course_row list"
  modules :: "module_row list"
  lesson_source_mappings :: "mapping_row list"
  learning_objectives :: "objective_row list"
  learning_activities :: "activity_row list"

text \<open>
  The store client never throws: every call resolves to a pair of data and error. Which
  round trips fail is fixed by a fault plan: \<open>fl n = Some msg\<close> says that the \<open>n\<close>-th round trip
  is rejected with message \<open>msg\<close> and changes nothing. Every function below takes the plan
  as its first argument; the theorems hold for every plan.
\<close>

type_synonym faults = "nat \<Rightarrow> string option"

definition no_faults :: faults where
  "no_faults = (\<lambda>n. None)"

definition tick :: "store \<Rightarrow> store" where
  "tick d = d\<lparr>calls := Suc (calls d)\<rparr>"

text \<open>The store's default for a new row's id: an id that no row of the table has.\<close>

definition fresh :: "uuid list \<Rightarrow> uuid" where
  "fresh ids = Suc (fold max ids 0)"

text \<open>
  \<^verbatim>\<open>.single()\<close> of the store client: the data is the row when the query yields exactly
  one row, and null (with an error) otherwise.
\<close>

fun single :: "'a list \<Rightarrow> 'a option" where
  "single [x] = Some x"
| "single xs = None"

text \<open>
  \<^verbatim>\<open>.order(col, { ascending: false }).limit(1)\<close>: a row with the greatest key (the first
  such row of the table, where the keys tie), none for no rows.
\<close>

fun order_desc_limit1 :: "('a \<Rightarrow> 'k::linorder) \<Rightarrow> 'a list \<Rightarrow> 'a list" where
  "order_desc_limit1 key [] = []"
| "order_desc_limit1 key (r # rs) = [fold (\<lambda>x best. if key best < key x then x else best) rs r]"

text \<open>A read: the rows the query selects, or null when the round trip fails.\<close>

definition select_single :: "faults \<Rightarrow> 'a list \<Rightarrow> store \<Rightarrow> 'a option \<times> store" where
  "select_single fl rows d =
     (case fl (calls d) of Some m \<Rightarrow> (None, tick d) | None \<Rightarrow> (single rows, tick d))"

text \<open>Inserts: the new row gets its id (and creation time) from the store.\<close>

definition insert_source :: "faults \<Rightarrow> source_row \<Rightarrow> store \<Rightarrow> (string + source_row) \<times> store" where
  "insert_source fl r d =
     (case fl (calls d) of
        Some m \<Rightarrow> (Inl m, tick d)
      | None \<Rightarrow>
          let r' = r\<lparr>s_id := fresh (map s_id (sources d)), s_updated_at := calls d\<rparr>
          in (Inr r', tick (d\<lparr>sources := sources d @ [r']\<rparr>)))"

definition insert_analysis :: "faults \<Rightarrow> analysis_row \<Rightarrow> store \<Rightarrow> (string + analysis_row) \<times> store" where
  "insert_analysis fl r d =
     (case fl (calls d) of
        Some m \<Rightarrow> (Inl m, tick d)
      | None \<Rightarrow>
          let r' = r\<lparr>sa_id := fresh (map sa_id (source_analyses d)), sa_created_at := calls d\<rparr>
          in (Inr r', tick (d\<lparr>source_analyses := source_analyses d @ [r']\<rparr>)))"

definition insert_link :: "faults \<Rightarrow> link_row \<Rightarrow> store \<Rightarrow> (string + link_row) \<times> store" where
  "insert_link fl r d =
     (case fl (calls d) of
        Some m \<Rightarrow> (Inl m, tick d)
      | None \<Rightarrow>
          let r' = r\<lparr>cs_id := fresh (map cs_id (collection_sources d))\<rparr>
          in (Inr r', tick (d\<lparr>collection_sources := collection_sources d @ [r']\<rparr>)))"

definition insert_collection_analysis ::
  "faults \<Rightarrow> collection_analysis_row \<Rightarrow> store \<Rightarrow> (string + collection_analysis_row) \<times> store" where
  "insert_collection_analysis fl r d =
     (case fl (calls d) of
        Some m \<Rightarrow> (Inl m, tick d)
      | None \<Rightarrow>
          let r' = r\<lparr>ca_id := fresh (map ca_id (collection_analyses d)), ca_created_at := calls d\<rparr>
          in (Inr r', tick (d\<lparr>collection_analyses := collection_analyses d @ [r']\<rparr>)))"

definition insert_course :: "faults \<Rightarrow> course_row \<Rightarrow> store \<Rightarrow> (string + course_row) \<times> store" where
  "insert_course fl r d =
     (case fl (calls d) of
        Some m \<Rightarrow> (Inl m, tick d)
      | None \<Rightarrow>
          let r' = r\<lparr>c_id := fresh (map c_id (courses d))\<rparr>
          in (Inr r', tick (d\<lparr>courses := courses d @ [r']\<rparr>)))"

definition insert_module :: "faults \<Rightarrow> module_row \<Rightarrow> store \<Rightarrow> (string + module_row) \<times> store" where
  "insert_module fl r d =
     (case fl (calls d) of
        Some m \<Rightarrow> (Inl m, tick d)
      | None \<Rightarrow>
          let r' = r\<lparr>mo_id := fresh (map mo_id (modules d))\<rparr>
          in (Inr r', tick (d\<lparr>modules := modules d @ [r']\<rparr>)))"

definition insert_mapping :: "faults \<Rightarrow> mapping_row \<Rightarrow> store \<Rightarrow> (string + mapping_row) \<times> store" where
  "insert_mapping fl r d =
     (case fl (calls d) of
        Some m \<Rightarrow> (Inl m, tick d)
      | None \<Rightarrow>
          let r' = r\<lparr>lm_id := fresh (map lm_id (lesson_source_mappings d))\<rparr>
          in (Inr r', tick (d\<lparr>lesson_source_mappings := lesson_source_mappings d @ [r']\<rparr>)))"

definition insert_objective :: "faults \<Rightarrow> objective_row \<Rightarrow> store \<Rightarrow> (string + objective_row) \<times> store" where
  "insert_objective fl r d =
     (case fl (calls d) of
        Some m \<Rightarrow> (Inl m, tick d)
      | None \<Rightarrow>
          let r' = r\<lparr>lo_id := fresh (map lo_id (learning_objectives d))\<rparr>
          in (Inr r', tick (d\<lparr>learning_objectives := learning_objectives d @ [r']\<rparr>)))"

definition insert_activity :: "faults \<Rightarrow> activity_row \<Rightarrow> store \<Rightarrow> (string + activity_row) \<times> store" where
  "insert_activity fl r d =
     (case fl (calls d) of
        Some m \<Rightarrow> (Inl m, tick d)
      | None \<Rightarrow>
          let r' = r\<lparr>la_id := fresh (map la_id (learning_activities d))\<rparr>
          in (Inr r', tick (d\<lparr>learning_activities := learning_activities d @ [r']\<rparr>)))"

text \<open>
  Updates with \<^verbatim>\<open>.eq('id', id)\<close>: every row with that id is changed; a rejected update
  changes nothing. The error, if any, is returned beside the store.
\<close>

definition update_source ::
  "faults \<Rightarrow> uuid \<Rightarrow> (source_row \<Rightarrow> source_row) \<Rightarrow> store \<Rightarrow> string option \<times> store" where
  "update_source fl sid f d =
     (case fl (calls d) of
        Some m \<Rightarrow> (Some m, tick d)
      | None \<Rightarrow>
          (None, tick (d\<lparr>sources := map (\<lambda>r. if s_id r = sid then f r else r) (sources d)\<rparr>)))"

definition update_collection ::
  "faults \<Rightarrow> uuid \<Rightarrow> (collection_row \<Rightarrow> collection_row) \<Rightarrow> store \<Rightarrow> string option \<times> store" where
  "update_collection fl cid f d =
     (case fl (calls d) of
        Some m \<Rightarrow> (Some m, tick d)
      | None \<Rightarrow>
          (None, tick (d\<lparr>source_collections :=
                            map (\<lambda>r. if sc_id r = cid then f r else r) (source_collections d)\<rparr>)))"

text \<open>What a later query for one source or collection sees.\<close>

definition source_status_of :: "store \<Rightarrow> uuid \<Rightarrow> source_status option" where
  "source_status_of d sid = map_option s_status (find (\<lambda>r. s_id r = sid) (sources d))"

definition collection_status_of :: "store \<Rightarrow> uuid \<Rightarrow> collection_status option" where
  "collection_status_of d cid = map_option sc_status (find (\<lambda>r. sc_id r = cid) (source_collections d))"


definition analyses_of :: "store \<Rightarrow> uuid \<Rightarrow> analysis_row list" where
  "analyses_of d sid = filter (\<lambda>r. sa_source_id r = sid) (source_analyses d)"

section \<open>Materialization: \<^verbatim>\<open>PipelineOrchestrator.saveLesson\<close>\<close>

text \<open>
  The inner loop over \<^verbatim>\<open>obj.activities\<close> (index \<open>j\<close>): each insert is checked and a
  rejected one throws.
\<close>

fun saveActivities :: "faults \<Rightarrow> uuid \<Rightarrow> nat \<Rightarrow> activity list \<Rightarrow> store \<Rightarrow> (error + unit) \<times> store" where
  "saveActivities fl oid j [] d = (Inr (), d)"
| "saveActivities fl oid j (act # acts) d =
     (case insert_activity fl
             \<lparr>la_id = 0, la_learning_objective_id = oid,
              la_instruction_method = a_instructionMethod act,
              la_description = a_description act, la_duration = a_duration act,
              la_resources = a_resources act, la_order_index = j\<rparr> d of
        (Inl m, d') \<Rightarrow> (Inl (Error (''Failed to create activity: '' @ m)), d')
      | (Inr row, d') \<Rightarrow> saveActivities fl oid (Suc j) acts d')"

text \<open>The loop over \<^verbatim>\<open>mod.objectives\<close> (index \<open>i\<close>).\<close>

fun saveObjectives :: "faults \<Rightarrow> uuid \<Rightarrow> nat \<Rightarrow> objective list \<Rightarrow> store \<Rightarrow> (error + unit) \<times> store" where
  "saveObjectives fl mid i [] d = (Inr (), d)"
| "saveObjectives fl mid i (obj # objs) d =
     (case insert_objective fl
             \<lparr>lo_id = 0, lo_module_id = mid, lo_objective_type = o_type obj,
              lo_content = o_content obj, lo_blooms_level = o_bloomsLevel obj,
              lo_order_index = i\<rparr> d of
        (Inl m, d') \<Rightarrow> (Inl (Error (''Failed to create objective: '' @ m)), d')
      | (Inr row, d') \<Rightarrow>
          (case saveActivities fl (lo_id row) 0 (o_activities obj) d' of
             (Inl e, d'') \<Rightarrow> (Inl e, d'')
           | (Inr u, d'') \<Rightarrow> saveObjectives fl mid (Suc i) objs d''))"

text \<open>
  The loop over \<^verbatim>\<open>lesson.modules\<close>. The result of the mapping insert is not looked at.
\<close>

fun saveModules :: "faults \<Rightarrow> uuid \<Rightarrow> uuid \<Rightarrow> lesson_module list \<Rightarrow> store \<Rightarrow> (error + unit) \<times> store" where
  "saveModules fl cid sid [] d = (Inr (), d)"
| "saveModules fl cid sid (md # mds) d =
     (case insert_module fl
             \<lparr>mo_id = 0, mo_course_id = cid, mo_module_number = m_moduleNumber md,
              mo_title = m_title md, mo_description = m_description md,
              mo_duration = m_duration md\<rparr> d of
        (Inl m, d') \<Rightarrow> (Inl (Error (''Failed to create module: '' @ m)), d')
      | (Inr row, d') \<Rightarrow>
          (let d'' = snd (insert_mapping fl \<lparr>lm_id = 0, lm_source_id = sid, lm_module_id = mo_id row\<rparr> d')
           in case saveObjectives fl (mo_id row) 0 (m_objectives md) d'' of
                (Inl e, d3) \<Rightarrow> (Inl e, d3)
              | (Inr u, d3) \<Rightarrow> saveModules fl cid sid mds d3))"

definition saveLesson :: "faults \<Rightarrow> lesson \<Rightarrow> uuid \<Rightarrow> uuid \<Rightarrow> store \<Rightarrow> (error + uuid) \<times> store" where
  "saveLesson fl lsn sid org d =
     (case insert_course fl
             \<lparr>c_id = 0, c_organization_id = org, c_collection_id = None,
              c_title = l_title lsn, c_description = l_description lsn,
              c_course_code = None, c_iata_category = None,
              c_total_duration_minutes = None, c_status = Draft\<rparr> d of
        (Inl m, d') \<Rightarrow> (Inl (Error (''Failed to create course: '' @ m)), d')
      | (Inr course, d') \<Rightarrow>
          (case saveModules fl (c_id course) sid (l_modules lsn) d' of
             (Inl e, d'') \<Rightarrow> (Inl e, d'')
           | (Inr u, d'') \<Rightarrow> (Inr (c_id course), d'')))"

section \<open>Materialization: \<^verbatim>\<open>CollectionOrchestrator.saveLesson\<close>\<close>

text \<open>Here the result of an activity insert is not looked at, and no mapping row is written.\<close>

fun saveActivitiesC :: "faults \<Rightarrow> uuid \<Rightarrow> nat \<Rightarrow> activity list \<Rightarrow> store \<Rightarrow> store" where
  "saveActivitiesC fl oid j [] d = d"
| "saveActivitiesC fl oid j (act # acts) d =
     saveActivitiesC fl oid (Suc j) acts
       (snd (insert_activity fl
               \<lparr>la_id = 0, la_learning_objective_id = oid,
                la_instruction_method = a_instructionMethod act,
                la_description = a_description act, la_duration = a_duration act,
                la_resources = a_resources act, la_order_index = j\<rparr> d))"

fun saveObjectivesC :: "faults \<Rightarrow> uuid \<Rightarrow> nat \<Rightarrow> objective list \<Rightarrow> store \<Rightarrow> (error + unit) \<times> store" where
  "saveObjectivesC fl mid i [] d = (Inr (), d)"
| "saveObjectivesC fl mid i (obj # objs) d =
     (case insert_objective fl
             \<lparr>lo_id = 0, lo_module_id = mid, lo_objective_type = o_type obj,
              lo_content = o_content obj, lo_blooms_level = o_bloomsLevel obj,
              lo_order_index = i\<rparr> d of
        (Inl m, d') \<Rightarrow> (Inl (StoreError m), d')
      | (Inr row, d') \<Rightarrow>
          saveObjectivesC fl mid (Suc i) objs
            (saveActivitiesC fl (lo_id row) 0 (o_activities obj) d'))"

fun saveModulesC :: "faults \<Rightarrow> uuid \<Rightarrow> lesson_module list \<Rightarrow> store \<Rightarrow> (error + unit) \<times> store" where
  "saveModulesC fl cid [] d = (Inr (), d)"
| "saveModulesC fl cid (md # mds) d =
     (case insert_module fl
             \<lparr>mo_id = 0, mo_course_id = cid, mo_module_number = m_moduleNumber md,
              mo_title = m_title md, mo_description = m_description md,
              mo_duration = m_duration md\<rparr> d of
        (Inl m, d') \<Rightarrow> (Inl (StoreError m), d')
      | (Inr row, d') \<Rightarrow>
          (case saveObjectivesC fl (mo_id row) 0 (m_objectives md) d' of
             (Inl e, d'') \<Rightarrow> (Inl e, d'')
           | (Inr u, d'') \<Rightarrow> saveModulesC fl cid mds d''))"

definition saveLessonC :: "faults \<Rightarrow> lesson \<Rightarrow> uuid \<Rightarrow> uuid \<Rightarrow> store \<Rightarrow> (error + uuid) \<times> store" where
  "saveLessonC fl lsn collectionId org d =
     (case insert_course fl
             \<lparr>c_id = 0, c_organization_id = org, c_collection_id = Some collectionId,
              c_title = l_title lsn, c_description = l_description lsn,
              c_course_code = l_course_code lsn, c_iata_category = l_iata_category lsn,
              c_total_duration_minutes = l_total_duration_minutes lsn, c_status = Draft\<rparr> d of
        (Inl m, d') \<Rightarrow> (Inl (StoreError m), d')
      | (Inr course, d') \<Rightarrow>
          (case saveModulesC fl (c_id course) (l_modules lsn) d' of
             (Inl e, d'') \<Rightarrow> (Inl e, d'')
           | (Inr u, d'') \<Rightarrow> (Inr (c_id course), d'')))"

section \<open>External adapters\<close>

text \<open>
  The calls that leave the process (video metadata, transcript, content analysis, synthesis,
  lesson generation, notebook creation) are parameters: each returns its result or the error
  it throws. \<^verbatim>\<open>synthesizeAcrossAnalyses\<close> and the collection lesson call are given
  the values the code passes to them. The notebook service is not among the sources; the
  orchestrator swallows its error, and its effect on the tables above is taken to be none.
\<close>

record adapters =
  getMetadata :: "string \<Rightarrow> error + string"
  getVideoUrl :: "string \<Rightarrow> error + string"
  analyzeVideo :: "string \<Rightarrow> uuid \<Rightarrow> error + source_analysis"
  analyzeDocument :: "string \<Rightarrow> string \<Rightarrow> string \<Rightarrow> uuid \<Rightarrow> error + source_analysis"
  generateLesson :: "string \<Rightarrow> string \<Rightarrow> error + lesson"
  createNotebookForCourse :: "uuid \<Rightarrow> error + unit"
  fetchYouTubeTranscript :: "string \<Rightarrow> error + string list"
  geminiAnalyzeVideo :: "string \<Rightarrow> uuid \<Rightarrow> string \<Rightarrow> error + source_analysis"
  geminiAnalyzeDocument :: "string \<Rightarrow> string \<Rightarrow> string \<Rightarrow> uuid \<Rightarrow> error + source_analysis"
  synthesizeAcrossAnalyses :: "source_analysis list \<Rightarrow> source_row option list \<Rightarrow> error + synthesis"
  lessonFromSynthesis :: "collection_row \<Rightarrow> source_row list \<Rightarrow> synthesis \<Rightarrow> error + lesson"

text \<open>
  JavaScript truthiness of the optional arguments: a \<^verbatim>\<open>Buffer\<close> is truthy when it is
  given, a string when it is given and not empty.
\<close>

definition truthy :: "string option \<Rightarrow> bool" where
  "truthy s = (case s of None \<Rightarrow> False | Some x \<Rightarrow> x \<noteq> [])"

text \<open>\<^verbatim>\<open>segments.join(' ')\<close>.\<close>

fun joinSpace :: "string list \<Rightarrow> string" where
  "joinSpace [] = []"
| "joinSpace [x] = x"
| "joinSpace (x # y # zs) = x @ '' '' @ joinSpace (y # zs)"

definition mimeType :: "source_type \<Rightarrow> string" where
  "mimeType t =
     (if t = Pdf then ''application/pdf''
      else ''application/vnd.openxmlformats-officedocument.presentationml.presentation'')"

section \<open>\<^verbatim>\<open>PipelineOrchestrator\<close>: the single-source pipeline\<close>

definition createSource ::
  "faults \<Rightarrow> adapters \<Rightarrow> string \<Rightarrow> source_type \<Rightarrow> uuid \<Rightarrow> store \<Rightarrow> (error + source_row) \<times> store" where
  "createSource fl ad sourceUrl sourceType org d =
     (let title = (if sourceType = Youtube
                   then (case getMetadata ad sourceUrl of Inr t \<Rightarrow> t | Inl e \<Rightarrow> sourceUrl)
                   else sourceUrl)
      in case insert_source fl
                \<lparr>s_id = 0, s_organization_id = Some org, s_source_type = sourceType,
                 s_source_url = sourceUrl, s_title = title, s_status = Pending,
                 s_updated_at = 0\<rparr> d of
           (Inl m, d') \<Rightarrow> (Inl (Error (''Failed to create source: '' @ m)), d')
         | (Inr row, d') \<Rightarrow> (Inr row, d'))"

text \<open>
  \<^verbatim>\<open>updateSourceStatus\<close> awaits the update and returns; the pair the store client
  resolves to is dropped.
\<close>

definition updateSourceStatus ::
  "faults \<Rightarrow> uuid \<Rightarrow> source_status \<Rightarrow> store \<Rightarrow> (error + unit) \<times> store" where
  "updateSourceStatus fl sid st d =
     (Inr (), snd (update_source fl sid (\<lambda>r. r\<lparr>s_status := st, s_updated_at := calls d\<rparr>) d))"

definition analyzeSource ::
  "adapters \<Rightarrow> uuid \<Rightarrow> string \<Rightarrow> source_type \<Rightarrow> string option \<Rightarrow> string option
     \<Rightarrow> error + source_analysis" where
  "analyzeSource ad sid sourceUrl sourceType fileBuffer fileName =
     (if sourceType = Youtube then
        (case getVideoUrl ad sourceUrl of
           Inl e \<Rightarrow> Inl e
         | Inr videoUrl \<Rightarrow> analyzeVideo ad videoUrl sid)
      else if fileBuffer = None \<or> \<not> truthy fileName then
        Inl (Error ''File buffer and name are required for document analysis'')
      else analyzeDocument ad (the fileBuffer) (the fileName) (mimeType sourceType) sid)"

definition saveAnalysis :: "faults \<Rightarrow> uuid \<Rightarrow> source_analysis \<Rightarrow> store \<Rightarrow> (error + unit) \<times> store" where
  "saveAnalysis fl sid an d =
     (case insert_analysis fl
             \<lparr>sa_id = 0, sa_source_id = sid, sa_analysis_type = ''gemini_analysis'',
              sa_analysis_data = analysisData an, sa_processing_time = processingTime an,
              sa_model_used = modelUsed an, sa_created_at = 0\<rparr> d of
        (Inl m, d') \<Rightarrow> (Inl (Error (''Failed to save analysis: '' @ m)), d')
      | (Inr row, d') \<Rightarrow> (Inr (), d'))"

definition getSourceTitle :: "faults \<Rightarrow> uuid \<Rightarrow> store \<Rightarrow> string \<times> store" where
  "getSourceTitle fl sid d =
     (case select_single fl (filter (\<lambda>r. s_id r = sid) (sources d)) d of
        (None, d') \<Rightarrow> (''Untitled Source'', d')
      | (Some row, d') \<Rightarrow> (if s_title row = [] then ''Untitled Source'' else s_title row, d'))"

text \<open>The body of the \<^verbatim>\<open>try\<close> block of \<^verbatim>\<open>processSourceToLesson\<close> (steps 2 to 8).\<close>

definition pipelineSteps ::
  "faults \<Rightarrow> adapters \<Rightarrow> source_row \<Rightarrow> string \<Rightarrow> source_type \<Rightarrow> uuid \<Rightarrow> string option
     \<Rightarrow> string option \<Rightarrow> store \<Rightarrow> (error + uuid \<times> lesson) \<times> store" where
  "pipelineSteps fl ad source sourceUrl sourceType org fileBuffer fileName d =
     (let d1 = snd (updateSourceStatus fl (s_id source) Processing d)
      in case analyzeSource ad (s_id source) sourceUrl sourceType fileBuffer fileName of
           Inl e \<Rightarrow> (Inl e, d1)
         | Inr an \<Rightarrow>
             (case saveAnalysis fl (s_id source) an d1 of
                (Inl e, d2) \<Rightarrow> (Inl e, d2)
              | (Inr u, d2) \<Rightarrow>
                  (case getSourceTitle fl (s_id source) d2 of
                     (title, d3) \<Rightarrow>
                       (case generateLesson ad (analysisData an) title of
                          Inl e \<Rightarrow> (Inl e, d3)
                        | Inr lsn \<Rightarrow>
                            (case saveLesson fl lsn (s_id source) org d3 of
                               (Inl e, d4) \<Rightarrow> (Inl e, d4)
                             | (Inr courseId, d4) \<Rightarrow>
                                 (let nb = createNotebookForCourse ad courseId;
                                      d5 = snd (updateSourceStatus fl (s_id source) Completed d4)
                                  in (Inr (courseId, lsn), d5)))))))"

text \<open>
  \<^verbatim>\<open>processSourceToLesson\<close>: the source row is created outside the \<^verbatim>\<open>try\<close>; the
  \<^verbatim>\<open>catch\<close> writes the status \<^verbatim>\<open>failed\<close> and re-throws.
\<close>

definition processSourceToLesson ::
  "faults \<Rightarrow> adapters \<Rightarrow> string \<Rightarrow> source_type \<Rightarrow> uuid \<Rightarrow> string option \<Rightarrow> string option
     \<Rightarrow> store \<Rightarrow> (error + uuid \<times> lesson) \<times> store" where
  "processSourceToLesson fl ad sourceUrl sourceType org fileBuffer fileName d =
     (case createSource fl ad sourceUrl sourceType org d of
        (Inl e, d0) \<Rightarrow> (Inl e, d0)
      | (Inr source, d0) \<Rightarrow>
          (case pipelineSteps fl ad source sourceUrl sourceType org fileBuffer fileName d0 of
             (Inl e, d1) \<Rightarrow> (Inl e, snd (updateSourceStatus fl (s_id source) Failed d1))
           | (Inr r, d1) \<Rightarrow> (Inr r, d1)))"

section \<open>\<^verbatim>\<open>ClaudeLessonService.validateLesson\<close>\<close>

fun validateModules :: "lesson_module list \<Rightarrow> error + unit" where
  "validateModules [] = Inr ()"
| "validateModules (md # mds) =
     (if m_objectives md = [] then
        Inl (Error (''Module '' @ [CHR 0x22] @ m_title md @ [CHR 0x22] @ '' has no objectives''))
      else if \<not> list_ex (\<lambda>ob. o_type ob = Terminal) (m_objectives md) then
        Inl (Error (''Module '' @ [CHR 0x22] @ m_title md @ [CHR 0x22]
                      @ '' needs at least one terminal objective''))
      else validateModules mds)"

definition validateLesson :: "lesson \<Rightarrow> error + unit" where
  "validateLesson lsn =
     (if l_title lsn = [] then Inl (Error ''Lesson missing course title'')
      else if l_modules lsn = [] then Inl (Error ''Lesson has no modules'')
      else validateModules (l_modules lsn))"

section \<open>\<^verbatim>\<open>CollectionOrchestrator.addSourceToCollection\<close>\<close>

definition getCollectionOrgId :: "faults \<Rightarrow> uuid \<Rightarrow> store \<Rightarrow> uuid option \<times> store" where
  "getCollectionOrgId fl cid d =
     (case select_single fl (filter (\<lambda>r. sc_id r = cid) (source_collections d)) d of
        (row, d') \<Rightarrow> (map_option sc_organization_id row, d'))"

definition getMaxOrderIndex :: "faults \<Rightarrow> uuid \<Rightarrow> store \<Rightarrow> int \<times> store" where
  "getMaxOrderIndex fl cid d =
     (case select_single fl
             (order_desc_limit1 cs_order_index
                (filter (\<lambda>r. cs_collection_id r = cid) (collection_sources d))) d of
        (None, d') \<Rightarrow> (- 1, d')
      | (Some row, d') \<Rightarrow> (cs_order_index row, d'))"

text \<open>
  Step 2 or 3: the analysis of the new source. For a document without a file buffer or
  name, the analysis is skipped with a warning. The update that stores the transcript
  and the duration writes columns that are not modelled; it is a round trip whose result
  is not looked at.
\<close>

definition analyzeForCollection ::
  "faults \<Rightarrow> adapters \<Rightarrow> source_row \<Rightarrow> string \<Rightarrow> source_type \<Rightarrow> string option \<Rightarrow> string option
     \<Rightarrow> store \<Rightarrow> (error + unit) \<times> store" where
  "analyzeForCollection fl ad source sourceUrl sourceType fileBuffer fileName d =
     (if sourceType = Youtube then
        (case fetchYouTubeTranscript ad sourceUrl of
           Inl e \<Rightarrow> (Inl e, d)
         | Inr transcript \<Rightarrow>
             (case geminiAnalyzeVideo ad sourceUrl (s_id source) (joinSpace transcript) of
                Inl e \<Rightarrow> (Inl e, d)
              | Inr an \<Rightarrow>
                  (let d1 = snd (update_source fl (s_id source) (\<lambda>r. r) d)
                   in case insert_analysis fl
                             \<lparr>sa_id = 0, sa_source_id = s_id source,
                              sa_analysis_type = ''gemini_video'',
                              sa_analysis_data = analysisData an,
                              sa_processing_time = processingTime an,
                              sa_model_used = modelUsed an, sa_created_at = 0\<rparr> d1 of
                        (Inl m, d2) \<Rightarrow> (Inl (StoreError m), d2)
                      | (Inr row, d2) \<Rightarrow> (Inr (), d2))))
      else if fileBuffer \<noteq> None \<and> truthy fileName then
        (case geminiAnalyzeDocument ad (the fileBuffer) (the fileName) (mimeType sourceType)
                (s_id source) of
           Inl e \<Rightarrow> (Inl e, d)
         | Inr an \<Rightarrow>
             (case insert_analysis fl
                     \<lparr>sa_id = 0, sa_source_id = s_id source,
                      sa_analysis_type = ''gemini_document'',
                      sa_analysis_data = analysisData an,
                      sa_processing_time = processingTime an,
                      sa_model_used = modelUsed an, sa_created_at = 0\<rparr> d of
                (Inl m, d1) \<Rightarrow> (Inl (StoreError m), d1)
              | (Inr row, d1) \<Rightarrow> (Inr (), d1)))
      else (Inr (), d))"

text \<open>The body of the \<^verbatim>\<open>try\<close> block of \<^verbatim>\<open>addSourceToCollection\<close>.\<close>

definition addSourceSteps ::
  "faults \<Rightarrow> adapters \<Rightarrow> uuid \<Rightarrow> string \<Rightarrow> source_type \<Rightarrow> string option \<Rightarrow> string option
     \<Rightarrow> store \<Rightarrow> (error + uuid) \<times> store" where
  "addSourceSteps fl ad collectionId sourceUrl sourceType fileBuffer fileName d =
     (case getCollectionOrgId fl collectionId d of
        (orgId, d0) \<Rightarrow>
          (let title0 = (if truthy fileName then the fileName else sourceUrl);
               title = (if sourceType = Youtube
                        then (case getMetadata ad sourceUrl of Inr t \<Rightarrow> t | Inl e \<Rightarrow> title0)
                        else title0)
           in case insert_source fl
                     \<lparr>s_id = 0, s_organization_id = orgId, s_source_type = sourceType,
                      s_source_url = sourceUrl, s_title = title, s_status = Processing,
                      s_updated_at = 0\<rparr> d0 of
                (Inl m, d1) \<Rightarrow> (Inl (StoreError m), d1)
              | (Inr source, d1) \<Rightarrow>
                  (case analyzeForCollection fl ad source sourceUrl sourceType fileBuffer fileName d1 of
                     (Inl e, d2) \<Rightarrow> (Inl e, d2)
                   | (Inr u, d2) \<Rightarrow>
                       (case getMaxOrderIndex fl collectionId d2 of
                          (maxOrder, d3) \<Rightarrow>
                            (case insert_link fl
                                    \<lparr>cs_id = 0, cs_collection_id = collectionId,
                                     cs_source_id = s_id source,
                                     cs_order_index = maxOrder + 1\<rparr> d3 of
                               (Inl m, d4) \<Rightarrow> (Inl (StoreError m), d4)
                             | (Inr link, d4) \<Rightarrow>
                                 (let d5 = snd (update_source fl (s_id source)
                                                  (\<lambda>r. r\<lparr>s_status := Completed\<rparr>) d4);
                                      d6 = snd (update_collection fl collectionId
                                                  (\<lambda>r. r\<lparr>sc_status := Building\<rparr>) d5)
                                  in (Inr (s_id source), d6)))))))"

text \<open>
  The \<^verbatim>\<open>catch\<close> wraps the message and throws a new error; it makes no store call. (For
  a store error the code takes the JSON text of the error object; the model keeps the
  message.)
\<close>

fun errorText :: "error \<Rightarrow> string" where
  "errorText (Error m) = m"
| "errorText (StoreError m) = m"

definition addSourceToCollection ::
  "faults \<Rightarrow> adapters \<Rightarrow> uuid \<Rightarrow> string \<Rightarrow> source_type \<Rightarrow> string option \<Rightarrow> string option
     \<Rightarrow> store \<Rightarrow> (error + uuid) \<times> store" where
  "addSourceToCollection fl ad collectionId sourceUrl sourceType fileBuffer fileName d =
     (case addSourceSteps fl ad collectionId sourceUrl sourceType fileBuffer fileName d of
        (Inl e, d') \<Rightarrow> (Inl (Error (''Failed to add source to collection: '' @ errorText e)), d')
      | (Inr sid, d') \<Rightarrow> (Inr sid, d'))"

section \<open>\<^verbatim>\<open>CollectionAnalyzer.analyzeCollection\<close>\<close>

text \<open>
  The member sources as the embedded select returns them: one entry per
  \<^verbatim>\<open>collection_sources\<close> row of the collection, the joined source row or null.
\<close>

definition memberSources :: "store \<Rightarrow> uuid \<Rightarrow> source_row option list" where
  "memberSources d cid =
     map (\<lambda>cs. find (\<lambda>s. s_id s = cs_source_id cs) (sources d))
         (filter (\<lambda>r. cs_collection_id r = cid) (collection_sources d))"

text \<open>
  \<^verbatim>\<open>ensureSourceAnalyses\<close>: one query per source, \<^verbatim>\<open>.eq('source_id', source.id).single()\<close>
  with no order and no limit; a source whose query gives no data is skipped with a warning.
  Reading \<^verbatim>\<open>source.id\<close> of a null entry throws a \<^verbatim>\<open>TypeError\<close>.
\<close>

fun ensureSourceAnalyses ::
  "faults \<Rightarrow> source_row option list \<Rightarrow> store \<Rightarrow> (error + source_analysis list) \<times> store" where
  "ensureSourceAnalyses fl [] d = (Inr [], d)"
| "ensureSourceAnalyses fl (None # srcs) d = (Inl (Error ''TypeError''), d)"
| "ensureSourceAnalyses fl (Some source # srcs) d =
     (case select_single fl (filter (\<lambda>r. sa_source_id r = s_id source) (source_analyses d)) d of
        (existing, d') \<Rightarrow>
          (case ensureSourceAnalyses fl srcs d' of
             (Inl e, d'') \<Rightarrow> (Inl e, d'')
           | (Inr rest, d'') \<Rightarrow>
               (case existing of
                  Some row \<Rightarrow>
                    (Inr (\<lparr>sourceId = s_id source, analysisData = sa_analysis_data row,
                           processingTime = sa_processing_time row,
                           modelUsed = sa_model_used row\<rparr> # rest), d'')
                | None \<Rightarrow> (Inr rest, d''))))"

text \<open>The body of the \<^verbatim>\<open>try\<close> block of \<^verbatim>\<open>analyzeCollection\<close> (steps 1 to 5).\<close>

definition analyzeSteps ::
  "faults \<Rightarrow> adapters \<Rightarrow> uuid \<Rightarrow> store \<Rightarrow> (error + collection_analysis_row) \<times> store" where
  "analyzeSteps fl ad collectionId d =
     (case select_single fl (filter (\<lambda>r. sc_id r = collectionId) (source_collections d)) d of
        (None, d1) \<Rightarrow> (Inl (Error ''Collection not found''), d1)
      | (Some collection, d1) \<Rightarrow>
          (let srcs = memberSources d collectionId
           in case ensureSourceAnalyses fl srcs d1 of
                (Inl e, d2) \<Rightarrow> (Inl e, d2)
              | (Inr analyses, d2) \<Rightarrow>
                  (case synthesizeAcrossAnalyses ad analyses srcs of
                     Inl e \<Rightarrow> (Inl e, d2)
                   | Inr syn \<Rightarrow>
                       (case insert_collection_analysis fl
                               \<lparr>ca_id = 0, ca_collection_id = collectionId,
                                ca_analysis_type = ''cross_source_synthesis'',
                                ca_analysis_data = syn,
                                ca_sources_analyzed = length analyses,
                                ca_created_at = 0\<rparr> d2 of
                          (Inl m, d3) \<Rightarrow> (Inl (StoreError m), d3)
                        | (Inr saved, d3) \<Rightarrow>
                            (let d4 = snd (update_collection fl collectionId
                                             (\<lambda>r. r\<lparr>sc_status := Ready,
                                                     sc_analysis_completed_at := Some (calls d3)\<rparr>) d3)
                             in (Inr saved, d4))))))"

definition analyzeCollection ::
  "faults \<Rightarrow> adapters \<Rightarrow> uuid \<Rightarrow> store \<Rightarrow> (error + collection_analysis_row) \<times> store" where
  "analyzeCollection fl ad collectionId d =
     (case analyzeSteps fl ad collectionId d of
        (Inl e, d') \<Rightarrow>
          (Inl e, snd (update_collection fl collectionId (\<lambda>r. r\<lparr>sc_status := CollectionFailed\<rparr>) d'))
      | (Inr saved, d') \<Rightarrow> (Inr saved, d'))"

section \<open>Generate lesson from collection\<close>

text \<open>\<^verbatim>\<open>ensureCollectionAnalysis\<close>: the latest analysis of the collection if the query returns one.\<close>

definition ensureCollectionAnalysis ::
  "faults \<Rightarrow> adapters \<Rightarrow> uuid \<Rightarrow> store \<Rightarrow> (error + collection_analysis_row) \<times> store" where
  "ensureCollectionAnalysis fl ad collectionId d =
     (case select_single fl
             (order_desc_limit1 ca_created_at
                (filter (\<lambda>r. ca_collection_id r = collectionId) (collection_analyses d))) d of
        (Some existing, d') \<Rightarrow> (Inr existing, d')
      | (None, d') \<Rightarrow> analyzeCollection fl ad collectionId d')"

text \<open>
  \<^verbatim>\<open>CollectionLessonService.generateFromCollection\<close>: the prompt reads the id and title
  of every member source (a \<^verbatim>\<open>TypeError\<close> on a null entry); the parsed lesson is returned
  with the metadata attached and is not inspected.
\<close>

fun allSome :: "'a option list \<Rightarrow> 'a list option" where
  "allSome [] = Some []"
| "allSome (None # xs) = None"
| "allSome (Some x # xs) = map_option (\<lambda>ys. x # ys) (allSome xs)"

definition generateFromCollection ::
  "faults \<Rightarrow> adapters \<Rightarrow> uuid \<Rightarrow> synthesis \<Rightarrow> store \<Rightarrow> (error + lesson) \<times> store" where
  "generateFromCollection fl ad collectionId syn d =
     (case select_single fl (filter (\<lambda>r. sc_id r = collectionId) (source_collections d)) d of
        (None, d1) \<Rightarrow> (Inl (Error ''Collection not found''), d1)
      | (Some collection, d1) \<Rightarrow>
          (case allSome (memberSources d collectionId) of
             None \<Rightarrow> (Inl (Error ''TypeError''), d1)
           | Some srcs \<Rightarrow>
               (case lessonFromSynthesis ad collection srcs syn of
                  Inl e \<Rightarrow> (Inl e, d1)
                | Inr lsn \<Rightarrow>
                    (Inr (lsn\<lparr>l_metadata :=
                                 Some \<lparr>md_collectionId = collectionId,
                                       md_sourcesUsed = map s_id srcs,
                                       md_synthesisStrategy = synthesisStrategy syn\<rparr>\<rparr>), d1))))"

definition processCollectionToLesson ::
  "faults \<Rightarrow> adapters \<Rightarrow> uuid \<Rightarrow> uuid \<Rightarrow> store \<Rightarrow> (error + uuid \<times> lesson) \<times> store" where
  "processCollectionToLesson fl ad collectionId org d =
     (case ensureCollectionAnalysis fl ad collectionId d of
        (Inl e, d1) \<Rightarrow> (Inl e, d1)
      | (Inr analysis, d1) \<Rightarrow>
          (case generateFromCollection fl ad collectionId (ca_analysis_data analysis) d1 of
             (Inl e, d2) \<Rightarrow> (Inl e, d2)
           | (Inr lsn, d2) \<Rightarrow>
               (case saveLessonC fl lsn collectionId org d2 of
                  (Inl e, d3) \<Rightarrow> (Inl e, d3)
                | (Inr courseId, d3) \<Rightarrow> (Inr (courseId, lsn), d3))))"

section \<open>Concrete stores, plans and adapters\<close>

definition fail_at :: "nat \<Rightarrow> faults" where
  "fail_at k = (\<lambda>n. if n = k then Some ''rejected'' else None)"


definition empty_store :: store where
  "empty_store =
     \<lparr>calls = 0, sources = [], source_analyses = [], source_collections = [],
      collection_sources = [], collection_analyses = [], courses = [], modules = [],
      lesson_source_mappings = [], learning_objectives = [], learning_activities = []\<rparr>"

text \<open>One module with one terminal objective and one activity.\<close>

definition sample_lesson :: lesson where
  "sample_lesson =
     \<lparr>l_title = ''Ramp safety'', l_description = ''Basics'', l_course_code = None,
      l_iata_category = None, l_total_duration_minutes = None,
      l_modules =
        [\<lparr>m_moduleNumber = 1, m_title = ''Intro'', m_description = ''d'', m_duration = ''60'',
          m_objectives =
            [\<lparr>o_type = Terminal, o_content = ''c'', o_bloomsLevel = Apply, o_sourceIds = [],
              o_activities =
                [\<lparr>a_instructionMethod = ''lecture'', a_description = ''d'',
                  a_duration = ''15'', a_resources = ''r''\<rparr>]\<rparr>]\<rparr>],
      l_metadata = None\<rparr>"

text \<open>The sample lesson with the objectives of its module removed.\<close>

definition lesson_without_objectives :: lesson where
  "lesson_without_objectives =
     sample_lesson\<lparr>l_modules := map (\<lambda>m. m\<lparr>m_objectives := []\<rparr>) (l_modules sample_lesson)\<rparr>"

text \<open>A store that already holds a course with one module, at round trip 20.\<close>

definition seeded_store :: store where
  "seeded_store =
     empty_store\<lparr>calls := 20,
                 courses :=
                   [\<lparr>c_id = 1, c_organization_id = 3, c_collection_id = None,
                     c_title = ''Earlier course'', c_description = ''d'', c_course_code = None,
                     c_iata_category = None, c_total_duration_minutes = None,
                     c_status = Published\<rparr>],
                 modules :=
                   [\<lparr>mo_id = 1, mo_course_id = 1, mo_module_number = 1,
                     mo_title = ''Earlier module'', mo_description = ''d'',
                     mo_duration = ''30''\<rparr>]\<rparr>"

definition sample_analysis :: source_analysis where
  "sample_analysis =
     \<lparr>sourceId = 0, analysisData = ''{}'', processingTime = 1, modelUsed = ''model''\<rparr>"

text \<open>Adapters that all succeed.\<close>

definition adapters_ok :: adapters where
  "adapters_ok =
     \<lparr>getMetadata = (\<lambda>url. Inr ''Video title''),
      getVideoUrl = (\<lambda>url. Inr url),
      analyzeVideo = (\<lambda>url sid. Inr (sample_analysis\<lparr>sourceId := sid\<rparr>)),
      analyzeDocument = (\<lambda>buf name mime sid. Inr (sample_analysis\<lparr>sourceId := sid\<rparr>)),
      generateLesson = (\<lambda>an title. Inr sample_lesson),
      createNotebookForCourse = (\<lambda>courseId. Inr ()),
      fetchYouTubeTranscript = (\<lambda>url. Inr [''hello'', ''world'']),
      geminiAnalyzeVideo = (\<lambda>url sid text. Inr (sample_analysis\<lparr>sourceId := sid\<rparr>)),
      geminiAnalyzeDocument = (\<lambda>buf name mime sid. Inr (sample_analysis\<lparr>sourceId := sid\<rparr>)),
      synthesizeAcrossAnalyses =
        (\<lambda>ans srcs. Inr \<lparr>sourceContributions = map sourceId ans,
                            synthesisStrategy = ''strategy'', synthesisBody = ''{}''\<rparr>),
      lessonFromSynthesis = (\<lambda>collection srcs syn. Inr sample_lesson)\<rparr>"

text \<open>A store with one collection (id 1, status \<^verbatim>\<open>ready\<close>) and nothing else.\<close>

definition collection_store :: store where
  "collection_store =
     empty_store\<lparr>calls := 10,
                 source_collections :=
                   [\<lparr>sc_id = 1, sc_organization_id = 3, sc_title = ''Ground ops'',
                     sc_description = ''Sources'', sc_status = Ready,
                     sc_analysis_completed_at = Some 9\<rparr>]\<rparr>"

text \<open>Rows for the concrete stores.\<close>

definition mk_source :: "uuid \<Rightarrow> source_row" where
  "mk_source i =
     \<lparr>s_id = i, s_organization_id = Some 3, s_source_type = Pdf, s_source_url = ''doc.pdf'',
      s_title = ''Document'', s_status = Completed, s_updated_at = 1\<rparr>"

definition mk_analysis :: "uuid \<Rightarrow> uuid \<Rightarrow> string \<Rightarrow> timestamp \<Rightarrow> analysis_row" where
  "mk_analysis i sid payload t =
     \<lparr>sa_id = i, sa_source_id = sid, sa_analysis_type = ''gemini_document'',
      sa_analysis_data = payload, sa_processing_time = 1, sa_model_used = ''model'',
      sa_created_at = t\<rparr>"

definition mk_link :: "uuid \<Rightarrow> uuid \<Rightarrow> uuid \<Rightarrow> int \<Rightarrow> link_row" where
  "mk_link i cid sid idx =
     \<lparr>cs_id = i, cs_collection_id = cid, cs_source_id = sid, cs_order_index = idx\<rparr>"

text \<open>
  Collection 1 with the member sources 1 and 2, one Content Analysis each, status
  \<^verbatim>\<open>building\<close>, never synthesized.
\<close>

definition member_store :: store where
  "member_store =
     empty_store\<lparr>calls := 10,
                 sources := [mk_source 1, mk_source 2],
                 source_analyses := [mk_analysis 1 1 ''a1'' 3, mk_analysis 2 2 ''a2'' 4],
                 source_collections :=
                   [\<lparr>sc_id = 1, sc_organization_id = 3, sc_title = ''Ground ops'',
                     sc_description = ''Sources'', sc_status = Building,
                     sc_analysis_completed_at = None\<rparr>],
                 collection_sources := [mk_link 1 1 1 0, mk_link 2 1 2 1]\<rparr>"



text \<open>
  What the loop of \<^verbatim>\<open>ensureSourceAnalyses\<close> collects, as a function of the stored
  analyses: the lookup for the source at position \<open>i\<close> is round trip \<open>n + i\<close>.
\<close>

definition as_analysis :: "source_row \<Rightarrow> analysis_row \<Rightarrow> source_analysis" where
  "as_analysis source row =
     \<lparr>sourceId = s_id source, analysisData = sa_analysis_data row,
      processingTime = sa_processing_time row, modelUsed = sa_model_used row\<rparr>"

fun picked :: "faults \<Rightarrow> analysis_row list \<Rightarrow> nat \<Rightarrow> source_row list \<Rightarrow> source_analysis list" where
  "picked fl rows n [] = []"
| "picked fl rows n (s # ss) =
     (case (if fl n = None then single (filter (\<lambda>r. sa_source_id r = s_id s) rows) else None) of
        None \<Rightarrow> picked fl rows (Suc n) ss
      | Some row \<Rightarrow> as_analysis s row # picked fl rows (Suc n) ss)"

section \<open>Rows are only ever appended\<close>

text \<open>The rows of the lesson tables before a call are still there, in place, after it.\<close>

definition lesson_rows_kept :: "store \<Rightarrow> store \<Rightarrow> bool" where
  "lesson_rows_kept d d' \<longleftrightarrow>
     prefix (courses d) (courses d') \<and> prefix (modules d) (modules d') \<and>
     prefix (lesson_source_mappings d) (lesson_source_mappings d') \<and>
     prefix (learning_objectives d) (learning_objectives d') \<and>
     prefix (learning_activities d) (learning_activities d')"

text \<open>
  The number of rows in the lesson tables, and the number of round trips from the
  \<open>a\<close>-th up to (not including) the \<open>b\<close>-th that the store accepts.
\<close>

definition lesson_row_count :: "store \<Rightarrow> nat" where
  "lesson_row_count d =
     length (courses d) + length (modules d) + length (lesson_source_mappings d) +
     length (learning_objectives d) + length (learning_activities d)"

definition accepted :: "faults \<Rightarrow> nat \<Rightarrow> nat \<Rightarrow> nat" where
  "accepted fl a b = length (filter (\<lambda>n. fl n = None) [a..<b])"

text \<open>
  Through a run made of inserts only: no earlier row is lost or moved, and every accepted
  round trip has left one more row.
\<close>

definition attempt_rows_kept :: "faults \<Rightarrow> store \<Rightarrow> store \<Rightarrow> bool" where
  "attempt_rows_kept fl d d' \<longleftrightarrow>
     calls d \<le> calls d' \<and> lesson_rows_kept d d' \<and>
     lesson_row_count d' = lesson_row_count d + accepted fl (calls d) (calls d')"

text \<open>The tables outside the lesson graph.\<close>

definition core_unchanged :: "store \<Rightarrow> store \<Rightarrow> bool" where
  "core_unchanged d d' \<longleftrightarrow>
     sources d' = sources d \<and> source_analyses d' = source_analyses d \<and>
     source_collections d' = source_collections d \<and>
     collection_sources d' = collection_sources d \<and>
     collection_analyses d' = collection_analyses d"

lemma fresh_notin: "fresh ids \<notin> set ids"
proof
  assume a: "fresh ids \<in> set ids"
  have "fold max ids 0 = Max (set (0 # ids))" by (simp only: Max.set_eq_fold)
  with a have "fresh ids \<le> fold max ids 0" by simp
  then show False by (simp add: fresh_def)
qed

subsection \<open>A relation kept by every insert is kept by the loops\<close>

lemma saveActivities_rel:
  assumes r: "\<And>d. R d d" and t: "\<And>a b c. R a b \<Longrightarrow> R b c \<Longrightarrow> R a c"
    and ia: "\<And>row d. R d (snd (insert_activity fl row d))"
  shows "R d (snd (saveActivities fl oid j acts d))"
proof (induction acts arbitrary: j d)
  case Nil
  show ?case by (simp add: r)
next
  case (Cons act acts)
  let ?row = "\<lparr>la_id = 0, la_learning_objective_id = oid,
              la_instruction_method = a_instructionMethod act,
              la_description = a_description act, la_duration = a_duration act,
              la_resources = a_resources act, la_order_index = j\<rparr>"
  obtain x d1 where ins: "insert_activity fl ?row d = (x, d1)"
    by (cases "insert_activity fl ?row d")
  have k1: "R d d1" using ia[of d ?row] ins by simp
  show ?case
  proof (cases x)
    case (Inl m)
    then show ?thesis using ins k1 by simp
  next
    case (Inr row)
    then show ?thesis using ins t[OF k1 Cons.IH[of d1 "Suc j"]] by simp
  qed
qed

lemma saveObjectives_rel:
  assumes r: "\<And>d. R d d" and t: "\<And>a b c. R a b \<Longrightarrow> R b c \<Longrightarrow> R a c"
    and ia: "\<And>row d. R d (snd (insert_activity fl row d))"
    and io: "\<And>row d. R d (snd (insert_objective fl row d))"
  shows "R d (snd (saveObjectives fl mid i objs d))"
proof (induction objs arbitrary: i d)
  case Nil
  show ?case by (simp add: r)
next
  case (Cons obj objs)
  let ?row = "\<lparr>lo_id = 0, lo_module_id = mid, lo_objective_type = o_type obj,
              lo_content = o_content obj, lo_blooms_level = o_bloomsLevel obj,
              lo_order_index = i\<rparr>"
  obtain x d1 where ins: "insert_objective fl ?row d = (x, d1)"
    by (cases "insert_objective fl ?row d")
  have k1: "R d d1" using io[of d ?row] ins by simp
  show ?case
  proof (cases x)
    case (Inl m)
    then show ?thesis using ins k1 by simp
  next
    case (Inr row)
    obtain x2 d2 where acts: "saveActivities fl (lo_id row) 0 (o_activities obj) d1 = (x2, d2)"
      by (cases "saveActivities fl (lo_id row) 0 (o_activities obj) d1")
    have "R d1 d2"
      using saveActivities_rel[of R fl d1 "lo_id row" 0 "o_activities obj", OF r t ia] acts by simp
    then have k2: "R d d2" using t[OF k1] by blast
    show ?thesis
    proof (cases x2)
      case (Inl e)
      then show ?thesis using ins Inr acts k2 by simp
    next
      case (Inr u)
      then show ?thesis
        using ins \<open>x = Inr row\<close> acts t[OF k2 Cons.IH[of d2 "Suc i"]] by simp
    qed
  qed
qed

lemma saveModules_rel:
  assumes r: "\<And>d. R d d" and t: "\<And>a b c. R a b \<Longrightarrow> R b c \<Longrightarrow> R a c"
    and ia: "\<And>row d. R d (snd (insert_activity fl row d))"
    and io: "\<And>row d. R d (snd (insert_objective fl row d))"
    and im: "\<And>row d. R d (snd (insert_module fl row d))"
    and ip: "\<And>row d. R d (snd (insert_mapping fl row d))"
  shows "R d (snd (saveModules fl cid sid mds d))"
proof (induction mds arbitrary: d)
  case Nil
  show ?case by (simp add: r)
next
  case (Cons md mds)
  let ?row = "\<lparr>mo_id = 0, mo_course_id = cid, mo_module_number = m_moduleNumber md,
              mo_title = m_title md, mo_description = m_description md,
              mo_duration = m_duration md\<rparr>"
  obtain x d1 where ins: "insert_module fl ?row d = (x, d1)"
    by (cases "insert_module fl ?row d")
  have k1: "R d d1" using im[of d ?row] ins by simp
  show ?case
  proof (cases x)
    case (Inl m)
    then show ?thesis using ins k1 by simp
  next
    case (Inr row)
    let ?d2 = "snd (insert_mapping fl \<lparr>lm_id = 0, lm_source_id = sid, lm_module_id = mo_id row\<rparr> d1)"
    have k2: "R d ?d2" using t[OF k1 ip] .
    obtain x3 d3 where objs: "saveObjectives fl (mo_id row) 0 (m_objectives md) ?d2 = (x3, d3)"
      by (cases "saveObjectives fl (mo_id row) 0 (m_objectives md) ?d2")
    have "R ?d2 d3"
      using saveObjectives_rel[of R fl ?d2 "mo_id row" 0 "m_objectives md", OF r t ia io] objs
      by simp
    then have k3: "R d d3" using t[OF k2] by blast
    show ?thesis
    proof (cases x3)
      case (Inl e)
      then show ?thesis using ins Inr objs k3 by (simp add: Let_def)
    next
      case (Inr u)
      then show ?thesis
        using ins \<open>x = Inr row\<close> objs t[OF k3 Cons.IH[of d3]] by (simp add: Let_def)
    qed
  qed
qed

lemma saveActivitiesC_rel:
  assumes r: "\<And>d. R d d" and t: "\<And>a b c. R a b \<Longrightarrow> R b c \<Longrightarrow> R a c"
    and ia: "\<And>row d. R d (snd (insert_activity fl row d))"
  shows "R d (saveActivitiesC fl oid j acts d)"
proof (induction acts arbitrary: j d)
  case Nil
  show ?case by (simp add: r)
next
  case (Cons act acts)
  show ?case using t[OF ia Cons.IH] by simp
qed

lemma saveObjectivesC_rel:
  assumes r: "\<And>d. R d d" and t: "\<And>a b c. R a b \<Longrightarrow> R b c \<Longrightarrow> R a c"
    and ia: "\<And>row d. R d (snd (insert_activity fl row d))"
    and io: "\<And>row d. R d (snd (insert_objective fl row d))"
  shows "R d (snd (saveObjectivesC fl mid i objs d))"
proof (induction objs arbitrary: i d)
  case Nil
  show ?case by (simp add: r)
next
  case (Cons obj objs)
  let ?row = "\<lparr>lo_id = 0, lo_module_id = mid, lo_objective_type = o_type obj,
              lo_content = o_content obj, lo_blooms_level = o_bloomsLevel obj,
              lo_order_index = i\<rparr>"
  obtain x d1 where ins: "insert_objective fl ?row d = (x, d1)"
    by (cases "insert_objective fl ?row d")
  have k1: "R d d1" using io[of d ?row] ins by simp
  show ?case
  proof (cases x)
    case (Inl m)
    then show ?thesis using ins k1 by simp
  next
    case (Inr row)
    have k2: "R d (saveActivitiesC fl (lo_id row) 0 (o_activities obj) d1)"
      using t[OF k1 saveActivitiesC_rel[of R fl, OF r t ia]] .
    show ?thesis using ins Inr t[OF k2 Cons.IH] by simp
  qed
qed

lemma saveModulesC_rel:
  assumes r: "\<And>d. R d d" and t: "\<And>a b c. R a b \<Longrightarrow> R b c \<Longrightarrow> R a c"
    and ia: "\<And>row d. R d (snd (insert_activity fl row d))"
    and io: "\<And>row d. R d (snd (insert_objective fl row d))"
    and im: "\<And>row d. R d (snd (insert_module fl row d))"
  shows "R d (snd (saveModulesC fl cid mds d))"
proof (induction mds arbitrary: d)
  case Nil
  show ?case by (simp add: r)
next
  case (Cons md mds)
  let ?row = "\<lparr>mo_id = 0, mo_course_id = cid, mo_module_number = m_moduleNumber md,
              mo_title = m_title md, mo_description = m_description md,
              mo_duration = m_duration md\<rparr>"
  obtain x d1 where ins: "insert_module fl ?row d = (x, d1)"
    by (cases "insert_module fl ?row d")
  have k1: "R d d1" using im[of d ?row] ins by simp
  show ?case
  proof (cases x)
    case (Inl m)
    then show ?thesis using ins k1 by simp
  next
    case (Inr row)
    obtain x3 d3 where objs: "saveObjectivesC fl (mo_id row) 0 (m_objectives md) d1 = (x3, d3)"
      by (cases "saveObjectivesC fl (mo_id row) 0 (m_objectives md) d1")
    have "R d1 d3"
      using saveObjectivesC_rel[of R fl d1 "mo_id row" 0 "m_objectives md", OF r t ia io] objs
      by simp
    then have k3: "R d d3" using t[OF k1] by blast
    show ?thesis
    proof (cases x3)
      case (Inl e)
      then show ?thesis using ins Inr objs k3 by simp
    next
      case (Inr u)
      then show ?thesis
        using ins \<open>x = Inr row\<close> objs t[OF k3 Cons.IH[of d3]] by simp
    qed
  qed
qed

lemmas insert_defs = insert_source_def insert_analysis_def insert_link_def
  insert_collection_analysis_def insert_course_def insert_module_def insert_mapping_def
  insert_objective_def insert_activity_def

lemma kept_refl: "lesson_rows_kept d d"
  by (simp add: lesson_rows_kept_def)

lemma kept_trans: "lesson_rows_kept a b \<Longrightarrow> lesson_rows_kept b c \<Longrightarrow> lesson_rows_kept a c"
  unfolding lesson_rows_kept_def by (meson prefix_order.order_trans)

lemma kept_insert_activity: "lesson_rows_kept d (snd (insert_activity fl r d))"
  by (simp add: lesson_rows_kept_def insert_activity_def tick_def Let_def split: option.splits)

lemma kept_insert_objective: "lesson_rows_kept d (snd (insert_objective fl r d))"
  by (simp add: lesson_rows_kept_def insert_objective_def tick_def Let_def split: option.splits)

lemma kept_insert_module: "lesson_rows_kept d (snd (insert_module fl r d))"
  by (simp add: lesson_rows_kept_def insert_module_def tick_def Let_def split: option.splits)

lemma kept_insert_mapping: "lesson_rows_kept d (snd (insert_mapping fl r d))"
  by (simp add: lesson_rows_kept_def insert_mapping_def tick_def Let_def split: option.splits)

lemma kept_insert_course: "lesson_rows_kept d (snd (insert_course fl r d))"
  by (simp add: lesson_rows_kept_def insert_course_def tick_def Let_def split: option.splits)

lemma kept_saveModules: "lesson_rows_kept d (snd (saveModules fl cid sid mds d))"
  by (rule saveModules_rel[of lesson_rows_kept, OF kept_refl kept_trans kept_insert_activity
        kept_insert_objective kept_insert_module kept_insert_mapping])

lemma kept_saveModulesC: "lesson_rows_kept d (snd (saveModulesC fl cid mds d))"
  by (rule saveModulesC_rel[of lesson_rows_kept, OF kept_refl kept_trans kept_insert_activity
        kept_insert_objective kept_insert_module])

lemma courses_saveModules: "courses (snd (saveModules fl cid sid mds d)) = courses d"
  by (rule saveModules_rel[of "\<lambda>a b. courses b = courses a"])
     (simp_all add: insert_defs tick_def Let_def split: option.splits)

lemma courses_saveModulesC: "courses (snd (saveModulesC fl cid mds d)) = courses d"
  by (rule saveModulesC_rel[of "\<lambda>a b. courses b = courses a"])
     (simp_all add: insert_defs tick_def Let_def split: option.splits)

lemma core_saveModules: "core_unchanged d (snd (saveModules fl cid sid mds d))"
  by (rule saveModules_rel[of core_unchanged])
     (simp_all add: core_unchanged_def insert_defs tick_def Let_def split: option.splits)

lemma core_saveModulesC: "core_unchanged d (snd (saveModulesC fl cid mds d))"
  by (rule saveModulesC_rel[of core_unchanged])
     (simp_all add: core_unchanged_def insert_defs tick_def Let_def split: option.splits)

lemma saveLesson_snd:
  "snd (saveLesson fl lsn sid org d) =
     (case insert_course fl
             \<lparr>c_id = 0, c_organization_id = org, c_collection_id = None,
              c_title = l_title lsn, c_description = l_description lsn,
              c_course_code = None, c_iata_category = None,
              c_total_duration_minutes = None, c_status = Draft\<rparr> d of
        (Inl m, d') \<Rightarrow> d'
      | (Inr course, d') \<Rightarrow> snd (saveModules fl (c_id course) sid (l_modules lsn) d'))"
  by (simp add: saveLesson_def split: prod.splits sum.splits)

lemma saveLessonC_snd:
  "snd (saveLessonC fl lsn cid org d) =
     (case insert_course fl
             \<lparr>c_id = 0, c_organization_id = org, c_collection_id = Some cid,
              c_title = l_title lsn, c_description = l_description lsn,
              c_course_code = l_course_code lsn, c_iata_category = l_iata_category lsn,
              c_total_duration_minutes = l_total_duration_minutes lsn, c_status = Draft\<rparr> d of
        (Inl m, d') \<Rightarrow> d'
      | (Inr course, d') \<Rightarrow> snd (saveModulesC fl (c_id course) (l_modules lsn) d'))"
  by (simp add: saveLessonC_def split: prod.splits sum.splits)

text \<open>The Course row that \<^verbatim>\<open>saveLesson\<close> builds.\<close>

lemma saveLesson_courses:
  "courses (snd (saveLesson fl lsn sid org d)) =
     (case fl (calls d) of
        Some m \<Rightarrow> courses d
      | None \<Rightarrow> courses d @
          [\<lparr>c_id = fresh (map c_id (courses d)), c_organization_id = org, c_collection_id = None,
            c_title = l_title lsn, c_description = l_description lsn, c_course_code = None,
            c_iata_category = None, c_total_duration_minutes = None, c_status = Draft\<rparr>])"
  by (simp add: saveLesson_snd insert_course_def tick_def Let_def courses_saveModules
        split: option.splits)

lemma saveLessonC_courses:
  "courses (snd (saveLessonC fl lsn cid org d)) =
     (case fl (calls d) of
        Some m \<Rightarrow> courses d
      | None \<Rightarrow> courses d @
          [\<lparr>c_id = fresh (map c_id (courses d)), c_organization_id = org,
            c_collection_id = Some cid,
            c_title = l_title lsn, c_description = l_description lsn,
            c_course_code = l_course_code lsn, c_iata_category = l_iata_category lsn,
            c_total_duration_minutes = l_total_duration_minutes lsn, c_status = Draft\<rparr>])"
  by (simp add: saveLessonC_snd insert_course_def tick_def Let_def courses_saveModulesC
        split: option.splits)

lemma saveLesson_rel:
  assumes r: "\<And>d. R d d" and t: "\<And>a b c. R a b \<Longrightarrow> R b c \<Longrightarrow> R a c"
    and ia: "\<And>row d. R d (snd (insert_activity fl row d))"
    and io: "\<And>row d. R d (snd (insert_objective fl row d))"
    and im: "\<And>row d. R d (snd (insert_module fl row d))"
    and ip: "\<And>row d. R d (snd (insert_mapping fl row d))"
    and ic: "\<And>row d. R d (snd (insert_course fl row d))"
  shows "R d (snd (saveLesson fl lsn sid org d))"
proof -
  let ?row = "\<lparr>c_id = 0, c_organization_id = org, c_collection_id = None,
              c_title = l_title lsn, c_description = l_description lsn,
              c_course_code = None, c_iata_category = None,
              c_total_duration_minutes = None, c_status = Draft\<rparr>"
  obtain x d1 where ins: "insert_course fl ?row d = (x, d1)"
    by (cases "insert_course fl ?row d")
  have k1: "R d d1" using ic[of d ?row] ins by simp
  show ?thesis
  proof (cases x)
    case (Inl m)
    then show ?thesis using ins k1 by (simp add: saveLesson_snd)
  next
    case (Inr course)
    then show ?thesis
      using ins t[OF k1 saveModules_rel[of R fl d1 "c_id course" sid "l_modules lsn",
                                        OF r t ia io im ip]]
      by (simp add: saveLesson_snd)
  qed
qed

lemma saveLessonC_rel:
  assumes r: "\<And>d. R d d" and t: "\<And>a b c. R a b \<Longrightarrow> R b c \<Longrightarrow> R a c"
    and ia: "\<And>row d. R d (snd (insert_activity fl row d))"
    and io: "\<And>row d. R d (snd (insert_objective fl row d))"
    and im: "\<And>row d. R d (snd (insert_module fl row d))"
    and ic: "\<And>row d. R d (snd (insert_course fl row d))"
  shows "R d (snd (saveLessonC fl lsn cid org d))"
proof -
  let ?row = "\<lparr>c_id = 0, c_organization_id = org, c_collection_id = Some cid,
              c_title = l_title lsn, c_description = l_description lsn,
              c_course_code = l_course_code lsn, c_iata_category = l_iata_category lsn,
              c_total_duration_minutes = l_total_duration_minutes lsn, c_status = Draft\<rparr>"
  obtain x d1 where ins: "insert_course fl ?row d = (x, d1)"
    by (cases "insert_course fl ?row d")
  have k1: "R d d1" using ic[of d ?row] ins by simp
  show ?thesis
  proof (cases x)
    case (Inl m)
    then show ?thesis using ins k1 by (simp add: saveLessonC_snd)
  next
    case (Inr course)
    then show ?thesis
      using ins t[OF k1 saveModulesC_rel[of R fl d1 "c_id course" "l_modules lsn",
                                         OF r t ia io im]]
      by (simp add: saveLessonC_snd)
  qed
qed

lemma kept_saveLesson: "lesson_rows_kept d (snd (saveLesson fl lsn sid org d))"
  by (rule saveLesson_rel[of lesson_rows_kept, OF kept_refl kept_trans kept_insert_activity
        kept_insert_objective kept_insert_module kept_insert_mapping kept_insert_course])

lemma kept_saveLessonC: "lesson_rows_kept d (snd (saveLessonC fl lsn cid org d))"
  by (rule saveLessonC_rel[of lesson_rows_kept, OF kept_refl kept_trans kept_insert_activity
        kept_insert_objective kept_insert_module kept_insert_course])

lemma core_saveLesson: "core_unchanged d (snd (saveLesson fl lsn sid org d))"
  by (rule saveLesson_rel[of core_unchanged])
     (simp_all add: core_unchanged_def insert_defs tick_def Let_def split: option.splits)

lemma core_saveLessonC: "core_unchanged d (snd (saveLessonC fl lsn cid org d))"
  by (rule saveLessonC_rel[of core_unchanged])
     (simp_all add: core_unchanged_def insert_defs tick_def Let_def split: option.splits)

section \<open>Materialization is not all-or-nothing\<close>

lemma accepted_refl: "accepted fl a a = 0"
  by (simp add: accepted_def)

lemma accepted_split: "a \<le> b \<Longrightarrow> b \<le> c \<Longrightarrow> accepted fl a c = accepted fl a b + accepted fl b c"
proof -
  assume ab: "a \<le> b" and bc: "b \<le> c"
  then have "[a..<c] = [a..<b] @ [b..<c]"
    using upt_add_eq_append[of a b "c - b"] by simp
  then show ?thesis by (simp add: accepted_def)
qed

lemma accepted_one: "accepted fl a (Suc a) = (if fl a = None then 1 else 0)"
  by (simp add: accepted_def)

lemma attempt_refl: "attempt_rows_kept fl d d"
  by (simp add: attempt_rows_kept_def kept_refl accepted_refl)

lemma attempt_trans:
  "attempt_rows_kept fl a b \<Longrightarrow> attempt_rows_kept fl b c \<Longrightarrow> attempt_rows_kept fl a c"
  using kept_trans[of a b c] accepted_split[of "calls a" "calls b" "calls c" fl]
  by (auto simp: attempt_rows_kept_def)

lemma attempt_insert_activity: "attempt_rows_kept fl d (snd (insert_activity fl r d))"
  by (auto simp: attempt_rows_kept_def lesson_rows_kept_def lesson_row_count_def accepted_one
        insert_activity_def tick_def Let_def split: option.splits)

lemma attempt_insert_objective: "attempt_rows_kept fl d (snd (insert_objective fl r d))"
  by (auto simp: attempt_rows_kept_def lesson_rows_kept_def lesson_row_count_def accepted_one
        insert_objective_def tick_def Let_def split: option.splits)

lemma attempt_insert_module: "attempt_rows_kept fl d (snd (insert_module fl r d))"
  by (auto simp: attempt_rows_kept_def lesson_rows_kept_def lesson_row_count_def accepted_one
        insert_module_def tick_def Let_def split: option.splits)

lemma attempt_insert_mapping: "attempt_rows_kept fl d (snd (insert_mapping fl r d))"
  by (auto simp: attempt_rows_kept_def lesson_rows_kept_def lesson_row_count_def accepted_one
        insert_mapping_def tick_def Let_def split: option.splits)

lemma attempt_insert_course: "attempt_rows_kept fl d (snd (insert_course fl r d))"
  by (auto simp: attempt_rows_kept_def lesson_rows_kept_def lesson_row_count_def accepted_one
        insert_course_def tick_def Let_def split: option.splits)

lemma attempt_saveLesson: "attempt_rows_kept fl d (snd (saveLesson fl lsn sid org d))"
  by (rule saveLesson_rel[of "attempt_rows_kept fl", OF attempt_refl attempt_trans
        attempt_insert_activity attempt_insert_objective attempt_insert_module
        attempt_insert_mapping attempt_insert_course])

lemma attempt_saveLessonC: "attempt_rows_kept fl d (snd (saveLessonC fl lsn cid org d))"
  by (rule saveLessonC_rel[of "attempt_rows_kept fl", OF attempt_refl attempt_trans
        attempt_insert_activity attempt_insert_objective attempt_insert_module
        attempt_insert_course])

text \<open>
  Claim C1, as the code has it. Neither \<^verbatim>\<open>saveLesson\<close> deletes anything. When the call
  fails, every row that was in the lesson tables before the call is still there, in
  place, and every row the attempt wrote before the failure is still there too: the
  lesson tables have grown by exactly one row for each round trip of the attempt that the
  store accepted (every round trip of \<^verbatim>\<open>saveLesson\<close> is an insert). In particular,
  whenever the store accepted the Course insert, the new Course row is still in the table
  after the error has propagated.
\<close>

theorem saveLesson_failure_keeps_rows:
  "(saveLesson fl lsn sid org d = (Inl e, d') \<longrightarrow>
      lesson_rows_kept d d' \<and>
      lesson_row_count d' = lesson_row_count d + accepted fl (calls d) (calls d') \<and>
      (fl (calls d) = None \<longrightarrow>
         (\<exists>row. courses d' = courses d @ [row] \<and> c_title row = l_title lsn))) \<and>
   (saveLessonC fl lsn cid org d = (Inl e, d'') \<longrightarrow>
      lesson_rows_kept d d'' \<and>
      lesson_row_count d'' = lesson_row_count d + accepted fl (calls d) (calls d'') \<and>
      (fl (calls d) = None \<longrightarrow>
         (\<exists>row. courses d'' = courses d @ [row] \<and> c_title row = l_title lsn)))"
proof (intro conjI impI)
  assume run: "saveLesson fl lsn sid org d = (Inl e, d')"
  then have s: "snd (saveLesson fl lsn sid org d) = d'" by simp
  have a: "attempt_rows_kept fl d d'" using attempt_saveLesson[of fl d lsn sid org] s by simp
  show "lesson_rows_kept d d'" using a by (simp add: attempt_rows_kept_def)
  show "lesson_row_count d' = lesson_row_count d + accepted fl (calls d) (calls d')"
    using a by (simp add: attempt_rows_kept_def)
  assume "fl (calls d) = None"
  then show "\<exists>row. courses d' = courses d @ [row] \<and> c_title row = l_title lsn"
    using saveLesson_courses[of fl lsn sid org d] s by simp
next
  assume run: "saveLessonC fl lsn cid org d = (Inl e, d'')"
  then have s: "snd (saveLessonC fl lsn cid org d) = d''" by simp
  have a: "attempt_rows_kept fl d d''" using attempt_saveLessonC[of fl d lsn cid org] s by simp
  show "lesson_rows_kept d d''" using a by (simp add: attempt_rows_kept_def)
  show "lesson_row_count d'' = lesson_row_count d + accepted fl (calls d) (calls d'')"
    using a by (simp add: attempt_rows_kept_def)
  assume "fl (calls d) = None"
  then show "\<exists>row. courses d'' = courses d @ [row] \<and> c_title row = l_title lsn"
    using saveLessonC_courses[of fl lsn cid org d] s by simp
qed

text \<open>
  The theorem at two failing runs on a store that already holds a course and a module:
  the single-source fan-out rejected at the activity insert, after four accepted inserts,
  and the collection fan-out rejected at the objective insert, after two.
\<close>

theorem saveLesson_failure_keeps_rows_witness:
  "lesson_rows_kept seeded_store (snd (saveLesson (fail_at 24) sample_lesson 7 3 seeded_store)) \<and>
   lesson_row_count (snd (saveLesson (fail_at 24) sample_lesson 7 3 seeded_store))
     = lesson_row_count seeded_store + 4 \<and>
   (\<exists>row. courses (snd (saveLesson (fail_at 24) sample_lesson 7 3 seeded_store))
             = courses seeded_store @ [row] \<and> c_title row = ''Ramp safety'') \<and>
   lesson_rows_kept seeded_store (snd (saveLessonC (fail_at 22) sample_lesson 5 3 seeded_store)) \<and>
   lesson_row_count (snd (saveLessonC (fail_at 22) sample_lesson 5 3 seeded_store))
     = lesson_row_count seeded_store + 2 \<and>
   (\<exists>row. courses (snd (saveLessonC (fail_at 22) sample_lesson 5 3 seeded_store))
             = courses seeded_store @ [row] \<and> c_title row = ''Ramp safety'')"
proof -
  let ?d1 = "snd (saveLesson (fail_at 24) sample_lesson 7 3 seeded_store)"
  let ?d2 = "snd (saveLessonC (fail_at 22) sample_lesson 5 3 seeded_store)"
  have r1: "saveLesson (fail_at 24) sample_lesson 7 3 seeded_store
              = (Inl (Error ''Failed to create activity: rejected''), ?d1)"
    by code_simp
  have r2: "saveLessonC (fail_at 22) sample_lesson 5 3 seeded_store
              = (Inl (StoreError ''rejected''), ?d2)"
    by code_simp
  have f1: "fail_at 24 (calls seeded_store) = None" by code_simp
  have f2: "fail_at 22 (calls seeded_store) = None" by code_simp
  have n1: "accepted (fail_at 24) (calls seeded_store) (calls ?d1) = 4" by code_simp
  have n2: "accepted (fail_at 22) (calls seeded_store) (calls ?d2) = 2" by code_simp
  have t: "l_title sample_lesson = ''Ramp safety''"
    by (simp add: sample_lesson_def)
  have a: "lesson_rows_kept seeded_store ?d1 \<and>
           lesson_row_count ?d1 = lesson_row_count seeded_store + 4 \<and>
           (\<exists>row. courses ?d1 = courses seeded_store @ [row] \<and> c_title row = ''Ramp safety'')"
    using saveLesson_failure_keeps_rows[where fl = "fail_at 24" and lsn = sample_lesson
            and sid = 7 and org = 3 and d = seeded_store and d' = ?d1
            and e = "Error ''Failed to create activity: rejected''", THEN conjunct1]
          r1 f1 n1 t
    by simp
  have b: "lesson_rows_kept seeded_store ?d2 \<and>
           lesson_row_count ?d2 = lesson_row_count seeded_store + 2 \<and>
           (\<exists>row. courses ?d2 = courses seeded_store @ [row] \<and> c_title row = ''Ramp safety'')"
    using saveLesson_failure_keeps_rows[where fl = "fail_at 22" and lsn = sample_lesson
            and cid = 5 and org = 3 and d = seeded_store and d'' = ?d2
            and e = "StoreError ''rejected''", THEN conjunct2]
          r2 f2 n2 t
    by simp
  from a b show ?thesis by blast
qed

text \<open>
  Claim C1 as stated fails: after a failure at the fifth round trip the Course, Module,
  Mapping and Objective rows of the attempt are visible; after a failure at the second
  round trip of the collection variant the Course row is.
\<close>

theorem saveLesson_partial_rows_remain:
  "fst (saveLesson (fail_at 4) sample_lesson 7 3 empty_store)
     = Inl (Error ''Failed to create activity: rejected'') \<and>
   map c_title (courses (snd (saveLesson (fail_at 4) sample_lesson 7 3 empty_store)))
     = [''Ramp safety''] \<and>
   length (modules (snd (saveLesson (fail_at 4) sample_lesson 7 3 empty_store))) = 1 \<and>
   length (lesson_source_mappings (snd (saveLesson (fail_at 4) sample_lesson 7 3 empty_store))) = 1 \<and>
   length (learning_objectives (snd (saveLesson (fail_at 4) sample_lesson 7 3 empty_store))) = 1 \<and>
   fst (saveLessonC (fail_at 1) sample_lesson 5 3 empty_store) = Inl (StoreError ''rejected'') \<and>
   map c_title (courses (snd (saveLessonC (fail_at 1) sample_lesson 5 3 empty_store)))
     = [''Ramp safety'']"
  by code_simp

section \<open>New courses are drafts\<close>

text \<open>
  Claim C10. Every Course row that materialization adds to the table, in the single-source
  and in the collection pipeline, has status \<^verbatim>\<open>draft\<close>, whatever the lesson tree
  contains and whichever round trips fail.
\<close>

theorem course_rows_inserted_as_draft:
  "(\<forall>r \<in> set (drop (length (courses d)) (courses (snd (saveLesson fl lsn sid org d)))).
      c_status r = Draft) \<and>
   (\<forall>r \<in> set (drop (length (courses d)) (courses (snd (saveLessonC fl lsn cid org d)))).
      c_status r = Draft)"
  by (simp add: saveLesson_courses saveLessonC_courses split: option.splits)

text \<open>The theorem at a run of each pipeline that inserts a Course row.\<close>

theorem course_rows_inserted_as_draft_witness:
  "map c_status (courses (snd (saveLesson no_faults sample_lesson 7 3 empty_store))) = [Draft] \<and>
   map c_status (courses (snd (saveLessonC no_faults sample_lesson 5 3 empty_store))) = [Draft]"
proof -
  let ?a = "courses (snd (saveLesson no_faults sample_lesson 7 3 empty_store))"
  let ?b = "courses (snd (saveLessonC no_faults sample_lesson 5 3 empty_store))"
  have l: "length (courses empty_store) = 0" by (simp add: empty_store_def)
  have la: "length ?a = 1" and lb: "length ?b = 1" by code_simp+
  have "(\<forall>r \<in> set ?a. c_status r = Draft) \<and> (\<forall>r \<in> set ?b. c_status r = Draft)"
    using course_rows_inserted_as_draft[where d = empty_store and fl = no_faults
            and lsn = sample_lesson and sid = 7 and org = 3 and cid = 5] l
    by simp
  with la lb show ?thesis
    by (cases ?a; cases ?b) auto
qed

section \<open>A rejected status write goes unnoticed\<close>

text \<open>
  Claim C9. \<^verbatim>\<open>updateSourceStatus\<close> drops what the update resolves to, so it raises no
  error even when the store rejects the write. When the steps of the single-source
  pipeline fail with an error, the caller of \<^verbatim>\<open>processSourceToLesson\<close> receives that same
  error whatever happens to the \<^verbatim>\<open>failed\<close> write of the error path; and when that write
  is rejected the \<^verbatim>\<open>sources\<close> table, hence the stored status, is left as it was.
\<close>

theorem failed_status_write_is_silent:
  assumes "createSource fl ad url ty org d = (Inr source, d0)"
      and "pipelineSteps fl ad source url ty org buf name d0 = (Inl e, d1)"
  shows "fst (updateSourceStatus fl sid st dx) = Inr () \<and>
         (fl (calls dx) \<noteq> None \<longrightarrow> sources (snd (updateSourceStatus fl sid st dx)) = sources dx) \<and>
         fst (processSourceToLesson fl ad url ty org buf name d) = Inl e \<and>
         (fl (calls d1) \<noteq> None \<longrightarrow>
            sources (snd (processSourceToLesson fl ad url ty org buf name d)) = sources d1)"
  using assms
  by (auto simp: processSourceToLesson_def updateSourceStatus_def update_source_def tick_def
        split: option.splits)

text \<open>
  The theorem at a run whose analysis adapter throws and whose third round trip (the
  \<^verbatim>\<open>failed\<close> write) is rejected: the caller gets the adapter's error and the source stays
  \<^verbatim>\<open>processing\<close>.
\<close>

theorem failed_status_write_is_silent_witness:
  "fst (processSourceToLesson (fail_at 2)
          (adapters_ok\<lparr>analyzeVideo := (\<lambda>url sid. Inl (Error ''analysis failed''))\<rparr>)
          ''https://youtu.be/x'' Youtube 3 None None empty_store) = Inl (Error ''analysis failed'') \<and>
   source_status_of
     (snd (processSourceToLesson (fail_at 2)
             (adapters_ok\<lparr>analyzeVideo := (\<lambda>url sid. Inl (Error ''analysis failed''))\<rparr>)
             ''https://youtu.be/x'' Youtube 3 None None empty_store)) 1 = Some Processing"
proof -
  let ?ad = "adapters_ok\<lparr>analyzeVideo := (\<lambda>url sid. Inl (Error ''analysis failed''))\<rparr>"
  let ?src = "\<lparr>s_id = 1, s_organization_id = Some 3, s_source_type = Youtube,
               s_source_url = ''https://youtu.be/x'', s_title = ''Video title'',
               s_status = Pending, s_updated_at = 0\<rparr>"
  let ?d0 = "snd (createSource (fail_at 2) ?ad ''https://youtu.be/x'' Youtube 3 empty_store)"
  let ?d1 = "snd (pipelineSteps (fail_at 2) ?ad ?src ''https://youtu.be/x'' Youtube 3 None None ?d0)"
  have c: "createSource (fail_at 2) ?ad ''https://youtu.be/x'' Youtube 3 empty_store = (Inr ?src, ?d0)"
    by code_simp
  have p: "pipelineSteps (fail_at 2) ?ad ?src ''https://youtu.be/x'' Youtube 3 None None ?d0
             = (Inl (Error ''analysis failed''), ?d1)"
    by code_simp
  have f: "fail_at 2 (calls ?d1) \<noteq> None" by code_simp
  have st: "map_option s_status (find (\<lambda>r. s_id r = 1) (sources ?d1)) = Some Processing"
    by code_simp
  from failed_status_write_is_silent[OF c p] f st show ?thesis
    by (simp add: source_status_of_def)
qed

section \<open>The error path of \<^verbatim>\<open>addSourceToCollection\<close>\<close>

text \<open>
  Claim C3 at a failing input. The transcript fetch of a YouTube source throws after the
  Source row has been inserted with status \<^verbatim>\<open>processing\<close>. The \<^verbatim>\<open>catch\<close> of
  \<^verbatim>\<open>addSourceToCollection\<close> only wraps the message: the caller gets the error and the
  Source is left in \<^verbatim>\<open>processing\<close>, where the claim has it written to \<^verbatim>\<open>failed\<close>.
\<close>

theorem addSource_failure_leaves_processing:
  "fst (addSourceToCollection no_faults
           (adapters_ok\<lparr>fetchYouTubeTranscript := (\<lambda>url. Inl (Error ''Transcript unavailable''))\<rparr>)
           1 ''https://youtu.be/x'' Youtube None None collection_store)
     = Inl (Error ''Failed to add source to collection: Transcript unavailable'') \<and>
   source_status_of
     (snd (addSourceToCollection no_faults
           (adapters_ok\<lparr>fetchYouTubeTranscript := (\<lambda>url. Inl (Error ''Transcript unavailable''))\<rparr>)
           1 ''https://youtu.be/x'' Youtube None None collection_store)) 1
     = Some Processing"
  by code_simp

section \<open>Source status and content analyses\<close>

lemma find_map_keep_id:
  assumes "\<And>r. s_id (g r) = s_id r"
  shows "find (\<lambda>r. s_id r = k) (map g xs) = map_option g (find (\<lambda>r. s_id r = k) xs)"
  using assms by (induction xs) auto

lemma status_update_source:
  assumes "\<And>r. s_id (f r) = s_id r"
  shows "source_status_of (snd (update_source fl sid f d)) k =
           (case fl (calls d) of
              Some m \<Rightarrow> source_status_of d k
            | None \<Rightarrow> if k = sid then map_option (\<lambda>r. s_status (f r)) (find (\<lambda>r. s_id r = k) (sources d))
                      else source_status_of d k)"
proof -
  let ?g = "\<lambda>r. if s_id r = sid then f r else r"
  have g: "\<And>r. s_id (?g r) = s_id r" using assms by simp
  have m: "find (\<lambda>r. s_id r = k) (map ?g (sources d)) = map_option ?g (find (\<lambda>r. s_id r = k) (sources d))"
    by (rule find_map_keep_id[of ?g, OF g])
  show ?thesis
  proof (cases "find (\<lambda>r. s_id r = k) (sources d)")
    case None
    then show ?thesis using m
      by (auto simp: source_status_of_def update_source_def tick_def split: option.splits)
  next
    case (Some r)
    then have "s_id r = k" by (auto simp: find_Some_iff)
    then show ?thesis using m Some
      by (auto simp: source_status_of_def update_source_def tick_def split: option.splits)
  qed
qed

lemma status_updateSourceStatus:
  "st \<noteq> Completed \<Longrightarrow> source_status_of d k \<noteq> Some Completed \<Longrightarrow>
     source_status_of (snd (updateSourceStatus fl sid st d)) k \<noteq> Some Completed"
  by (auto simp: updateSourceStatus_def status_update_source split: option.splits)

lemma analyses_updateSourceStatus:
  "source_analyses (snd (updateSourceStatus fl sid st d)) = source_analyses d"
  by (simp add: updateSourceStatus_def update_source_def tick_def split: option.splits)

lemma status_fresh: "source_status_of d (fresh (map s_id (sources d))) = None"
proof -
  have "fresh (map s_id (sources d)) \<notin> s_id ` set (sources d)"
    using fresh_notin[of "map s_id (sources d)"] by simp
  then show ?thesis by (force simp: source_status_of_def find_None_iff)
qed


lemma saveLessonD:
  "saveLesson fl lsn sid org d = (r, d') \<Longrightarrow>
     sources d' = sources d \<and> source_analyses d' = source_analyses d"
  using core_saveLesson[of d fl lsn sid org] by (simp add: core_unchanged_def)

lemma saveAnalysisD:
  "saveAnalysis fl sid an d = (r, d') \<Longrightarrow>
     sources d' = sources d \<and>
     (case r of Inl e \<Rightarrow> source_analyses d' = source_analyses d | Inr u \<Rightarrow> analyses_of d' sid \<noteq> [])"
  by (auto simp: saveAnalysis_def insert_analysis_def tick_def Let_def analyses_of_def
        split: option.splits)

lemma getSourceTitleD:
  "getSourceTitle fl sid d = (t, d') \<Longrightarrow>
     sources d' = sources d \<and> source_analyses d' = source_analyses d"
  by (auto simp: getSourceTitle_def select_single_def tick_def split: option.splits)

lemma pipelineSteps_inv:
  assumes "source_status_of d0 k \<noteq> Some Completed"
      and "pipelineSteps fl ad source url ty org buf name d0 = (r, d')"
  shows "case r of Inl e \<Rightarrow> source_status_of d' k \<noteq> Some Completed
                 | Inr x \<Rightarrow> analyses_of d' (s_id source) \<noteq> []"
proof -
  let ?d1 = "snd (updateSourceStatus fl (s_id source) Processing d0)"
  have s1: "source_status_of ?d1 k \<noteq> Some Completed"
    using assms(1) by (simp add: status_updateSourceStatus)
  show ?thesis
  proof (cases "analyzeSource ad (s_id source) url ty buf name")
    case (Inl e)
    then have "pipelineSteps fl ad source url ty org buf name d0 = (Inl e, ?d1)"
      by (simp add: pipelineSteps_def Let_def)
    then show ?thesis using assms(2) s1 by simp
  next
    case (Inr an)
    obtain r2 d2 where sa: "saveAnalysis fl (s_id source) an ?d1 = (r2, d2)"
      by (cases "saveAnalysis fl (s_id source) an ?d1")
    note a2 = saveAnalysisD[OF sa]
    show ?thesis
    proof (cases r2)
      case (Inl e)
      then have "pipelineSteps fl ad source url ty org buf name d0 = (Inl e, d2)"
        using Inr sa by (simp add: pipelineSteps_def Let_def)
      moreover have "source_status_of d2 k \<noteq> Some Completed"
        using s1 a2 by (simp add: source_status_of_def)
      ultimately show ?thesis using assms(2) by simp
    next
      case u: (Inr u)
      obtain title d3 where gt: "getSourceTitle fl (s_id source) d2 = (title, d3)"
        by (cases "getSourceTitle fl (s_id source) d2")
      note a3 = getSourceTitleD[OF gt]
      have s3: "source_status_of d3 k \<noteq> Some Completed"
        using s1 a2 a3 by (simp add: source_status_of_def)
      have an3: "analyses_of d3 (s_id source) \<noteq> []"
        using a2 a3 u by (simp add: analyses_of_def)
      show ?thesis
      proof (cases "generateLesson ad (analysisData an) title")
        case (Inl e)
        then have "pipelineSteps fl ad source url ty org buf name d0 = (Inl e, d3)"
          using Inr sa u gt by (simp add: pipelineSteps_def Let_def)
        then show ?thesis using assms(2) s3 by simp
      next
        case l: (Inr lsn)
        obtain r4 d4 where sl: "saveLesson fl lsn (s_id source) org d3 = (r4, d4)"
          by (cases "saveLesson fl lsn (s_id source) org d3")
        note a4 = saveLessonD[OF sl]
        show ?thesis
        proof (cases r4)
          case (Inl e)
          then have "pipelineSteps fl ad source url ty org buf name d0 = (Inl e, d4)"
            using Inr sa u gt l sl by (simp add: pipelineSteps_def Let_def)
          moreover have "source_status_of d4 k \<noteq> Some Completed"
            using s3 a4 by (simp add: source_status_of_def)
          ultimately show ?thesis using assms(2) by simp
        next
          case c: (Inr courseId)
          let ?d5 = "snd (updateSourceStatus fl (s_id source) Completed d4)"
          have "pipelineSteps fl ad source url ty org buf name d0 = (Inr (courseId, lsn), ?d5)"
            using Inr sa u gt l sl c by (simp add: pipelineSteps_def Let_def)
          moreover have "analyses_of ?d5 (s_id source) \<noteq> []"
            using an3 a4 by (simp add: analyses_of_def analyses_updateSourceStatus)
          ultimately show ?thesis using assms(2) by simp
        qed
      qed
    qed
  qed
qed

lemma createSourceD:
  "createSource fl ad url ty org d = (r, d0) \<Longrightarrow>
     source_analyses d0 = source_analyses d \<and>
     (case r of
        Inl e \<Rightarrow> sources d0 = sources d
      | Inr source \<Rightarrow> s_id source = fresh (map s_id (sources d)) \<and> s_status source = Pending \<and>
                      sources d0 = sources d @ [source])"
  by (auto simp: createSource_def insert_source_def tick_def Let_def split: option.splits)

lemma find_app:
  "find P (xs @ ys) = (case find P xs of None \<Rightarrow> find P ys | Some x \<Rightarrow> Some x)"
  by (induction xs) auto

lemma status_append_fresh:
  "s_id row = fresh (map s_id (sources (d::store))) \<Longrightarrow> sources (d0::store) = sources d @ [row] \<Longrightarrow>
     source_status_of d0 (s_id row) = Some (s_status row)"
proof -
  assume a: "s_id row = fresh (map s_id (sources d))" and b: "sources d0 = sources d @ [row]"
  have "find (\<lambda>r. s_id r = s_id row) (sources d) = None"
    using status_fresh[of d] a by (simp add: source_status_of_def)
  then show ?thesis using b by (simp add: source_status_of_def find_app)
qed

lemma processSourceToLesson_completed:
  "source_status_of (snd (processSourceToLesson fl ad url ty org buf name d))
       (fresh (map s_id (sources d))) = Some Completed \<Longrightarrow>
   analyses_of (snd (processSourceToLesson fl ad url ty org buf name d))
       (fresh (map s_id (sources d))) \<noteq> []"
proof -
  let ?k = "fresh (map s_id (sources d))"
  assume fin: "source_status_of (snd (processSourceToLesson fl ad url ty org buf name d)) ?k
                  = Some Completed"
  obtain r0 d0 where cs: "createSource fl ad url ty org d = (r0, d0)"
    by (cases "createSource fl ad url ty org d")
  note a0 = createSourceD[OF cs]
  show ?thesis
  proof (cases r0)
    case (Inl e)
    then have "source_status_of d0 ?k = None" using a0 status_fresh[of d] by (simp add: source_status_of_def)
    then show ?thesis using fin cs Inl by (simp add: processSourceToLesson_def)
  next
    case (Inr source)
    then have k: "s_id source = ?k" and s0: "source_status_of d0 ?k = Some Pending"
      using a0 status_append_fresh[of source d d0] by auto
    obtain r1 d1 where ps: "pipelineSteps fl ad source url ty org buf name d0 = (r1, d1)"
      by (cases "pipelineSteps fl ad source url ty org buf name d0")
    have inv: "case r1 of Inl e \<Rightarrow> source_status_of d1 ?k \<noteq> Some Completed
                        | Inr x \<Rightarrow> analyses_of d1 (s_id source) \<noteq> []"
      using pipelineSteps_inv[OF _ ps, of ?k] s0 by simp
    show ?thesis
    proof (cases r1)
      case (Inl e)
      then have "source_status_of (snd (updateSourceStatus fl (s_id source) Failed d1)) ?k \<noteq> Some Completed"
        using inv by (simp add: status_updateSourceStatus)
      then show ?thesis using fin cs Inr ps Inl by (simp add: processSourceToLesson_def)
    next
      case x: (Inr x)
      then show ?thesis using inv cs Inr ps k by (simp add: processSourceToLesson_def)
    qed
  qed
qed


lemma getCollectionOrgIdD:
  "getCollectionOrgId fl cid d = (x, d0) \<Longrightarrow>
     sources d0 = sources d \<and> source_analyses d0 = source_analyses d"
  by (auto simp: getCollectionOrgId_def select_single_def tick_def split: option.splits)

lemma insert_sourceD:
  "insert_source fl row d = (r, d1) \<Longrightarrow>
     source_analyses d1 = source_analyses d \<and>
     (case r of
        Inl m \<Rightarrow> sources d1 = sources d
      | Inr s \<Rightarrow> s_id s = fresh (map s_id (sources d)) \<and> s_status s = s_status row \<and>
                 sources d1 = sources d @ [s])"
  by (auto simp: insert_source_def tick_def Let_def split: option.splits)

lemma analyzeForCollectionD:
  "analyzeForCollection fl ad source url ty buf name d1 = (r, d2) \<Longrightarrow>
     sources d2 = sources d1 \<and>
     (if ty = Youtube \<or> (buf \<noteq> None \<and> truthy name)
      then (case r of Inl e \<Rightarrow> True | Inr u \<Rightarrow> analyses_of d2 (s_id source) \<noteq> [])
      else source_analyses d2 = source_analyses d1)"
  by (auto simp: analyzeForCollection_def insert_analysis_def update_source_def tick_def Let_def
        analyses_of_def split: option.splits sum.splits if_splits)

lemma getMaxOrderIndexD:
  "getMaxOrderIndex fl cid d = (x, d') \<Longrightarrow>
     sources d' = sources d \<and> source_analyses d' = source_analyses d"
  by (auto simp: getMaxOrderIndex_def select_single_def tick_def split: option.splits)

lemma insert_linkD:
  "insert_link fl row d = (r, d') \<Longrightarrow>
     sources d' = sources d \<and> source_analyses d' = source_analyses d"
  by (auto simp: insert_link_def tick_def Let_def split: option.splits)

lemma analyses_update_source:
  "source_analyses (snd (update_source fl sid f d)) = source_analyses d"
  by (simp add: update_source_def tick_def split: option.splits)

lemma analyses_update_collection:
  "source_analyses (snd (update_collection fl cid f d)) = source_analyses d"
  by (simp add: update_collection_def tick_def split: option.splits)

lemma sources_update_collection:
  "sources (snd (update_collection fl cid f d)) = sources d"
  by (simp add: update_collection_def tick_def split: option.splits)

lemma addSourceSteps_inv:
  assumes run: "addSourceSteps fl ad cid url ty buf name d = (r, d')"
  shows "if ty = Youtube \<or> (buf \<noteq> None \<and> truthy name)
         then source_status_of d' (fresh (map s_id (sources d))) \<noteq> Some Completed \<or>
              analyses_of d' (fresh (map s_id (sources d))) \<noteq> []
         else source_analyses d' = source_analyses d"
proof -
  let ?k = "fresh (map s_id (sources d))"
  let ?title0 = "if truthy name then the name else url"
  let ?title = "if ty = Youtube
                then (case getMetadata ad url of Inr t \<Rightarrow> t | Inl e \<Rightarrow> ?title0)
                else ?title0"
  obtain org d0 where g: "getCollectionOrgId fl cid d = (org, d0)"
    by (cases "getCollectionOrgId fl cid d")
  note a0 = getCollectionOrgIdD[OF g]
  let ?row = "\<lparr>s_id = 0, s_organization_id = org, s_source_type = ty,
               s_source_url = url, s_title = ?title, s_status = Processing,
               s_updated_at = 0\<rparr>"
  obtain r1 d1 where i: "insert_source fl ?row d0 = (r1, d1)"
    by (cases "insert_source fl ?row d0")
  note a1 = insert_sourceD[OF i]
  have n0: "source_status_of d0 ?k = None"
    using status_fresh[of d] a0 by (simp add: source_status_of_def)
  have an1: "source_analyses d1 = source_analyses d" using a0 a1 by simp
  show ?thesis
  proof (cases r1)
    case (Inl m)
    then have "addSourceSteps fl ad cid url ty buf name d = (Inl (StoreError m), d1)"
      using g i by (simp add: addSourceSteps_def Let_def)
    moreover have "source_status_of d1 ?k = None"
      using n0 a1 Inl by (simp add: source_status_of_def)
    ultimately show ?thesis using run an1 by simp
  next
    case (Inr source)
    then have k: "s_id source = ?k" and st1: "source_status_of d1 ?k = Some Processing"
      using a0 a1 status_append_fresh[of source d0 d1] by auto
    obtain r2 d2 where an: "analyzeForCollection fl ad source url ty buf name d1 = (r2, d2)"
      by (cases "analyzeForCollection fl ad source url ty buf name d1")
    note a2 = analyzeForCollectionD[OF an]
    have st2: "source_status_of d2 ?k = Some Processing"
      using st1 a2 by (simp add: source_status_of_def)
    show ?thesis
    proof (cases r2)
      case (Inl e)
      then have "addSourceSteps fl ad cid url ty buf name d = (Inl e, d2)"
        using g i Inr an by (simp add: addSourceSteps_def Let_def)
      then show ?thesis using run st2 a2 an1 by (auto split: if_splits)
    next
      case u: (Inr u)
      obtain mx d3 where gm: "getMaxOrderIndex fl cid d2 = (mx, d3)"
        by (cases "getMaxOrderIndex fl cid d2")
      note a3 = getMaxOrderIndexD[OF gm]
      let ?link = "\<lparr>cs_id = 0, cs_collection_id = cid, cs_source_id = s_id source,
                    cs_order_index = mx + 1\<rparr>"
      obtain r4 d4 where il: "insert_link fl ?link d3 = (r4, d4)"
        by (cases "insert_link fl ?link d3")
      note a4 = insert_linkD[OF il]
      have st4: "source_status_of d4 ?k = Some Processing"
        using st2 a3 a4 by (simp add: source_status_of_def)
      have an4: "if ty = Youtube \<or> (buf \<noteq> None \<and> truthy name)
                 then analyses_of d4 ?k \<noteq> []
                 else source_analyses d4 = source_analyses d"
        using an1 a2 a3 a4 u k by (auto simp: analyses_of_def split: if_splits)
      show ?thesis
      proof (cases r4)
        case (Inl m)
        then have "addSourceSteps fl ad cid url ty buf name d = (Inl (StoreError m), d4)"
          using g i Inr an u gm il by (simp add: addSourceSteps_def Let_def)
        then show ?thesis using run st4 an4 by (auto split: if_splits)
      next
        case l: (Inr link)
        let ?d6 = "snd (update_collection fl cid (\<lambda>r. r\<lparr>sc_status := Building\<rparr>)
                     (snd (update_source fl (s_id source) (\<lambda>r. r\<lparr>s_status := Completed\<rparr>) d4)))"
        have "addSourceSteps fl ad cid url ty buf name d = (Inr (s_id source), ?d6)"
          using g i Inr an u gm il l by (simp add: addSourceSteps_def Let_def)
        moreover have "source_analyses ?d6 = source_analyses d4"
          by (simp add: analyses_update_source analyses_update_collection)
        ultimately show ?thesis using run an4 by (auto simp: analyses_of_def split: if_splits)
      qed
    qed
  qed
qed

lemma addSourceToCollection_snd:
  "snd (addSourceToCollection fl ad cid url ty buf name d)
     = snd (addSourceSteps fl ad cid url ty buf name d)"
  by (simp add: addSourceToCollection_def split: prod.splits sum.splits)

text \<open>
  Claim C4, as the code has it. The Source a run creates gets the id
  \<open>fresh (map s_id (sources d))\<close>. After a single-source run, and after an addSource run
  that analyses the source (a YouTube source, or a document given with its file buffer
  and name), that Source has status \<^verbatim>\<open>completed\<close> only if it has at least one Content
  Analysis row. An addSource of a document without a file buffer or name inserts no
  Content Analysis row at all.
\<close>

theorem completed_implies_analysis:
  "(source_status_of (snd (processSourceToLesson fl ad url ty org buf name d))
        (fresh (map s_id (sources d))) = Some Completed \<longrightarrow>
    analyses_of (snd (processSourceToLesson fl ad url ty org buf name d))
        (fresh (map s_id (sources d))) \<noteq> []) \<and>
   ((ty = Youtube \<or> (buf \<noteq> None \<and> truthy name)) \<and>
    source_status_of (snd (addSourceToCollection fl ad cid url ty buf name d))
        (fresh (map s_id (sources d))) = Some Completed \<longrightarrow>
    analyses_of (snd (addSourceToCollection fl ad cid url ty buf name d))
        (fresh (map s_id (sources d))) \<noteq> []) \<and>
   (ty \<noteq> Youtube \<and> (buf = None \<or> \<not> truthy name) \<longrightarrow>
    source_analyses (snd (addSourceToCollection fl ad cid url ty buf name d)) = source_analyses d)"
proof -
  obtain r d' where run: "addSourceSteps fl ad cid url ty buf name d = (r, d')"
    by (cases "addSourceSteps fl ad cid url ty buf name d")
  have s: "snd (addSourceToCollection fl ad cid url ty buf name d) = d'"
    using run by (simp add: addSourceToCollection_snd)
  show ?thesis
    using processSourceToLesson_completed[of fl ad url ty org buf name d]
          addSourceSteps_inv[OF run] s
    by (auto split: if_splits)
qed

text \<open>
  The theorem at a successful single-source run, a successful addSource of a YouTube
  source, and an addSource of a document without file buffer and name.
\<close>

theorem completed_implies_analysis_witness:
  "source_status_of
     (snd (processSourceToLesson no_faults adapters_ok ''https://youtu.be/x'' Youtube 3 None None
             empty_store)) 1 = Some Completed \<and>
   analyses_of
     (snd (processSourceToLesson no_faults adapters_ok ''https://youtu.be/x'' Youtube 3 None None
             empty_store)) 1 \<noteq> [] \<and>
   source_status_of
     (snd (addSourceToCollection no_faults adapters_ok 1 ''https://youtu.be/x'' Youtube None None
             collection_store)) 1 = Some Completed \<and>
   analyses_of
     (snd (addSourceToCollection no_faults adapters_ok 1 ''https://youtu.be/x'' Youtube None None
             collection_store)) 1 \<noteq> [] \<and>
   source_analyses
     (snd (addSourceToCollection no_faults adapters_ok 1 ''manual.pdf'' Pdf None None
             collection_store)) = []"
proof -
  have k1: "fresh (map s_id (sources empty_store)) = 1"
    and k2: "fresh (map s_id (sources collection_store)) = 1" by code_simp+
  have c1: "source_status_of
     (snd (processSourceToLesson no_faults adapters_ok ''https://youtu.be/x'' Youtube 3 None None
             empty_store)) 1 = Some Completed" by code_simp
  have c2: "source_status_of
     (snd (addSourceToCollection no_faults adapters_ok 1 ''https://youtu.be/x'' Youtube None None
             collection_store)) 1 = Some Completed" by code_simp
  have e: "source_analyses collection_store = []" by code_simp
  have a: "analyses_of
     (snd (processSourceToLesson no_faults adapters_ok ''https://youtu.be/x'' Youtube 3 None None
             empty_store)) 1 \<noteq> []"
    using completed_implies_analysis[where fl = no_faults and ad = adapters_ok
            and url = "''https://youtu.be/x''" and ty = Youtube and org = 3 and buf = None
            and name = None and d = empty_store, THEN conjunct1] c1 k1
    by simp
  have b: "analyses_of
     (snd (addSourceToCollection no_faults adapters_ok 1 ''https://youtu.be/x'' Youtube None None
             collection_store)) 1 \<noteq> []"
    using completed_implies_analysis[where fl = no_faults and ad = adapters_ok and cid = 1
            and url = "''https://youtu.be/x''" and ty = Youtube and buf = None
            and name = None and d = collection_store, THEN conjunct2, THEN conjunct1] c2 k2
    by simp
  have c: "source_analyses
     (snd (addSourceToCollection no_faults adapters_ok 1 ''manual.pdf'' Pdf None None
             collection_store)) = []"
    using completed_implies_analysis[where fl = no_faults and ad = adapters_ok and cid = 1
            and url = "''manual.pdf''" and ty = Pdf and buf = None
            and name = None and d = collection_store, THEN conjunct2, THEN conjunct2] e
    by simp
  from a b c c1 c2 show ?thesis by blast
qed

text \<open>
  Claim C4 as stated fails in both directions: an addSource of a document without a file
  buffer ends \<^verbatim>\<open>completed\<close> with no Content Analysis row, and a single-source run
  whose lesson generation throws ends \<^verbatim>\<open>failed\<close> with one.
\<close>

theorem completed_without_analysis:
  "fst (addSourceToCollection no_faults adapters_ok 1 ''manual.pdf'' Pdf None None collection_store)
     = Inr 1 \<and>
   source_status_of
     (snd (addSourceToCollection no_faults adapters_ok 1 ''manual.pdf'' Pdf None None
             collection_store)) 1 = Some Completed \<and>
   analyses_of
     (snd (addSourceToCollection no_faults adapters_ok 1 ''manual.pdf'' Pdf None None
             collection_store)) 1 = [] \<and>
   fst (processSourceToLesson no_faults
          (adapters_ok\<lparr>generateLesson := (\<lambda>an title. Inl (Error ''generation failed''))\<rparr>)
          ''https://youtu.be/x'' Youtube 3 None None empty_store)
     = Inl (Error ''generation failed'') \<and>
   source_status_of
     (snd (processSourceToLesson no_faults
             (adapters_ok\<lparr>generateLesson := (\<lambda>an title. Inl (Error ''generation failed''))\<rparr>)
             ''https://youtu.be/x'' Youtube 3 None None empty_store)) 1 = Some Failed \<and>
   length (analyses_of
     (snd (processSourceToLesson no_faults
             (adapters_ok\<lparr>generateLesson := (\<lambda>an title. Inl (Error ''generation failed''))\<rparr>)
             ''https://youtu.be/x'' Youtube 3 None None empty_store)) 1) = 1"
  by code_simp

section \<open>Reuse of a stored collection analysis\<close>

lemma fold_best:
  "fold (\<lambda>x best. if key best < key x then x else best) rs r \<in> set (r # rs) \<and>
   (\<forall>y \<in> set (r # rs). key y \<le> key (fold (\<lambda>x best. if key best < key x then x else best) rs (r::'a)) )"
  for key :: "'a \<Rightarrow> 'k::linorder"
proof (induction rs arbitrary: r)
  case Nil
  show ?case by simp
next
  case (Cons a rs)
  show ?case
    using Cons.IH[of "if key r < key a then a else r"]
    by (auto split: if_splits intro: order_trans less_imp_le)
qed

lemma order_desc_limit1_single:
  "rows \<noteq> [] \<Longrightarrow>
     \<exists>x \<in> set rows. (\<forall>y \<in> set rows. key y \<le> key x) \<and> single (order_desc_limit1 key rows) = Some x"
  using fold_best[of key "tl rows" "hd rows"] by (cases rows) auto





section \<open>The member analyses given to the synthesis\<close>

lemma single_Some_iff: "single xs = Some x \<longleftrightarrow> xs = [x]"
  by (cases xs rule: single.cases) auto

lemma ensureSourceAnalyses_picked:
  "ensureSourceAnalyses fl (map Some srcs) d =
     (Inr (picked fl (source_analyses d) (calls d) srcs), d\<lparr>calls := calls d + length srcs\<rparr>)"
proof (induction srcs arbitrary: d)
  case Nil
  show ?case by simp
next
  case (Cons s srcs)
  have t: "source_analyses (tick d) = source_analyses d" "calls (tick d) = Suc (calls d)"
    by (simp_all add: tick_def)
  have e: "(tick d)\<lparr>calls := Suc (calls d) + length srcs\<rparr> = d\<lparr>calls := calls d + length (s # srcs)\<rparr>"
    by (simp add: tick_def)
  show ?case
    using Cons.IH[of "tick d"] t e
    by (auto simp: select_single_def as_analysis_def split: option.splits)
qed

lemma picked_from:
  "a \<in> set (picked fl rows n ss) \<Longrightarrow>
     \<exists>s \<in> set ss. \<exists>row. filter (\<lambda>r. sa_source_id r = s_id s) rows = [row] \<and> a = as_analysis s row"
  by (induction ss arbitrary: n) (auto simp: single_Some_iff split: option.splits if_splits)

lemma picked_has:
  "i < length ss \<Longrightarrow> fl (n + i) = None \<Longrightarrow>
     filter (\<lambda>r. sa_source_id r = s_id (ss ! i)) rows = [row] \<Longrightarrow>
     as_analysis (ss ! i) row \<in> set (picked fl rows n ss)"
proof (induction ss arbitrary: n i)
  case Nil
  then show ?case by simp
next
  case (Cons s ss)
  show ?case
  proof (cases i)
    case 0
    then show ?thesis using Cons.prems by (auto split: option.splits)
  next
    case (Suc k)
    then have "as_analysis (ss ! k) row \<in> set (picked fl rows (Suc n) ss)"
      using Cons.IH[of k "Suc n"] Cons.prems by simp
    then show ?thesis using Suc by (auto split: option.splits)
  qed
qed

lemma picked_length:
  "length (picked fl rows n ss) =
     length (filter (\<lambda>i. fl (n + i) = None \<and>
                         (\<exists>row. filter (\<lambda>r. sa_source_id r = s_id (ss ! i)) rows = [row]))
                    [0..<length ss])"
proof (induction ss arbitrary: n)
  case Nil
  show ?case by simp
next
  case (Cons s ss)
  have u: "[0..<length (s # ss)] = 0 # map Suc [0..<length ss]"
    by (simp add: upt_conv_Cons map_Suc_upt del: upt_Suc)
  show ?case
    unfolding u
    using Cons.IH[of "Suc n"]
    by (auto simp: filter_map comp_def single_Some_iff split: option.splits)
qed

lemma analyzeSteps_synthesis_input:
  assumes "fl (calls dc) = None"
      and "single (filter (\<lambda>r. sc_id r = cid) (source_collections dc)) = Some c"
      and "ensureSourceAnalyses fl (memberSources dc cid) (tick dc) = (Inr given, dn)"
  shows "case synthesizeAcrossAnalyses ad given (memberSources dc cid) of
           Inl e \<Rightarrow> analyzeSteps fl ad cid dc = (Inl e, dn)
         | Inr syn \<Rightarrow>
             (case fst (analyzeSteps fl ad cid dc) of
                Inl e \<Rightarrow> fl (calls dn) \<noteq> None
              | Inr saved \<Rightarrow> ca_analysis_data saved = syn \<and>
                             ca_sources_analyzed saved = length given)"
  using assms
  by (auto simp: analyzeSteps_def select_single_def Let_def insert_collection_analysis_def
        split: sum.splits option.splits prod.splits)

text \<open>
  Claim C6, as the code has it. \<^verbatim>\<open>ensureSourceAnalyses\<close> never fails on the member
  sources: it returns a list of analyses, after one lookup per source (the lookup for the
  source at position \<open>i\<close> is round trip \<open>calls d + i\<close>). Every analysis in the list is
  built from the one and only Content Analysis row of a member source, which is its most
  recent. A source whose lookup is answered and that has exactly one row is in the list;
  a source that has no row is not; and the list has exactly one entry for each position
  whose lookup is answered with exactly one row, so that a source whose lookup fails is
  skipped as well. \<^verbatim>\<open>analyzeCollection\<close> hands that list to the synthesis: the
  adapter's error is the error of the steps, and its result is the payload of the saved
  row, with the length of the list as the number of sources analysed.
\<close>

theorem ensureSourceAnalyses_input:
  "(\<exists>ans. ensureSourceAnalyses fl (map Some srcs) d
            = (Inr ans, d\<lparr>calls := calls d + length srcs\<rparr>) \<and>
     (\<forall>a \<in> set ans. \<exists>s \<in> set srcs. \<exists>row.
          analyses_of d (s_id s) = [row] \<and> a = as_analysis s row) \<and>
     (\<forall>i < length srcs. \<forall>row.
          fl (calls d + i) = None \<and> analyses_of d (s_id (srcs ! i)) = [row] \<longrightarrow>
          as_analysis (srcs ! i) row \<in> set ans) \<and>
     (\<forall>s \<in> set srcs. analyses_of d (s_id s) = [] \<longrightarrow> s_id s \<notin> sourceId ` set ans) \<and>
     length ans =
       length (filter (\<lambda>i. fl (calls d + i) = None \<and>
                           (\<exists>row. analyses_of d (s_id (srcs ! i)) = [row]))
                      [0..<length srcs])) \<and>
   (fl (calls dc) = None \<and>
    single (filter (\<lambda>r. sc_id r = cid) (source_collections dc)) = Some c \<and>
    ensureSourceAnalyses fl (memberSources dc cid) (tick dc) = (Inr given, dn) \<longrightarrow>
      (case synthesizeAcrossAnalyses ad given (memberSources dc cid) of
         Inl e \<Rightarrow> analyzeSteps fl ad cid dc = (Inl e, dn)
       | Inr syn \<Rightarrow>
           (case fst (analyzeSteps fl ad cid dc) of
              Inl e \<Rightarrow> fl (calls dn) \<noteq> None
            | Inr saved \<Rightarrow> ca_analysis_data saved = syn \<and>
                           ca_sources_analyzed saved = length given)))"
proof -
  let ?ans = "picked fl (source_analyses d) (calls d) srcs"
  have 1: "ensureSourceAnalyses fl (map Some srcs) d = (Inr ?ans, d\<lparr>calls := calls d + length srcs\<rparr>)"
    by (rule ensureSourceAnalyses_picked)
  have 2: "\<forall>a \<in> set ?ans. \<exists>s \<in> set srcs. \<exists>row.
          analyses_of d (s_id s) = [row] \<and> a = as_analysis s row"
    using picked_from[where fl = fl and rows = "source_analyses d" and n = "calls d" and ss = srcs]
    by (simp add: analyses_of_def)
  have 3: "\<forall>i < length srcs. \<forall>row.
          fl (calls d + i) = None \<and> analyses_of d (s_id (srcs ! i)) = [row] \<longrightarrow>
          as_analysis (srcs ! i) row \<in> set ?ans"
    using picked_has[where fl = fl and rows = "source_analyses d" and n = "calls d" and ss = srcs]
    by (simp add: analyses_of_def)
  have 4: "\<forall>s \<in> set srcs. analyses_of d (s_id s) = [] \<longrightarrow> s_id s \<notin> sourceId ` set ?ans"
  proof (intro ballI impI notI)
    fix s assume s: "s \<in> set srcs" and e: "analyses_of d (s_id s) = []"
      and "s_id s \<in> sourceId ` set ?ans"
    then obtain a where a: "a \<in> set ?ans" "sourceId a = s_id s" by auto
    then obtain s' row where "analyses_of d (s_id s') = [row]" "a = as_analysis s' row"
      using 2 by blast
    then show False using a e by (simp add: as_analysis_def)
  qed
  have 5: "length ?ans =
       length (filter (\<lambda>i. fl (calls d + i) = None \<and>
                           (\<exists>row. analyses_of d (s_id (srcs ! i)) = [row]))
                      [0..<length srcs])"
    using picked_length[of fl "source_analyses d" "calls d" srcs] by (simp add: analyses_of_def)
  from 1 2 3 4 5 have A: "\<exists>ans. ensureSourceAnalyses fl (map Some srcs) d
            = (Inr ans, d\<lparr>calls := calls d + length srcs\<rparr>) \<and>
     (\<forall>a \<in> set ans. \<exists>s \<in> set srcs. \<exists>row.
          analyses_of d (s_id s) = [row] \<and> a = as_analysis s row) \<and>
     (\<forall>i < length srcs. \<forall>row.
          fl (calls d + i) = None \<and> analyses_of d (s_id (srcs ! i)) = [row] \<longrightarrow>
          as_analysis (srcs ! i) row \<in> set ans) \<and>
     (\<forall>s \<in> set srcs. analyses_of d (s_id s) = [] \<longrightarrow> s_id s \<notin> sourceId ` set ans) \<and>
     length ans =
       length (filter (\<lambda>i. fl (calls d + i) = None \<and>
                           (\<exists>row. analyses_of d (s_id (srcs ! i)) = [row]))
                      [0..<length srcs])"
    by blast
  show ?thesis
    using A analyzeSteps_synthesis_input[of fl dc cid c given dn ad] by blast
qed

text \<open>
  The theorem at the sources 1 and 2, which have one Content Analysis row each, and a
  source 5 that has none, and at the synthesis of collection 1.
\<close>

theorem ensureSourceAnalyses_input_witness:
  "as_analysis (mk_source 1) (mk_analysis 1 1 ''a1'' 3)
     \<in> set (projr (fst (ensureSourceAnalyses no_faults
                           (map Some [mk_source 1, mk_source 2, mk_source 5]) member_store))) \<and>
   as_analysis (mk_source 2) (mk_analysis 2 2 ''a2'' 4)
     \<in> set (projr (fst (ensureSourceAnalyses no_faults
                           (map Some [mk_source 1, mk_source 2, mk_source 5]) member_store))) \<and>
   5 \<notin> sourceId ` set (projr (fst (ensureSourceAnalyses no_faults
                           (map Some [mk_source 1, mk_source 2, mk_source 5]) member_store))) \<and>
   map_sum id (\<lambda>saved. (sourceContributions (ca_analysis_data saved), ca_sources_analyzed saved))
     (fst (analyzeSteps no_faults adapters_ok 1 member_store)) = Inr ([1, 2], 2)"
proof -
  let ?srcs = "[mk_source 1, mk_source 2, mk_source 5]"
  obtain ans where
        r: "ensureSourceAnalyses no_faults (map Some ?srcs) member_store
              = (Inr ans, member_store\<lparr>calls := calls member_store + length ?srcs\<rparr>)"
    and has: "\<forall>i < length ?srcs. \<forall>row.
          no_faults (calls member_store + i) = None \<and>
          analyses_of member_store (s_id (?srcs ! i)) = [row] \<longrightarrow>
          as_analysis (?srcs ! i) row \<in> set ans"
    and skip: "\<forall>s \<in> set ?srcs. analyses_of member_store (s_id s) = [] \<longrightarrow>
          s_id s \<notin> sourceId ` set ans"
    using ensureSourceAnalyses_input[where fl = no_faults and srcs = ?srcs and d = member_store,
            THEN conjunct1]
    by blast
  have a1: "analyses_of member_store (s_id (?srcs ! 0)) = [mk_analysis 1 1 ''a1'' 3]"
    and a2: "analyses_of member_store (s_id (?srcs ! 1)) = [mk_analysis 2 2 ''a2'' 4]"
    and a5: "analyses_of member_store (s_id (mk_source 5)) = []"
    and i5: "s_id (mk_source 5) = 5"
    by code_simp+
  have f: "\<And>n. no_faults n = None" by (simp add: no_faults_def)
  have m1: "as_analysis (mk_source 1) (mk_analysis 1 1 ''a1'' 3) \<in> set ans"
    using has[rule_format, of 0 "mk_analysis 1 1 ''a1'' 3"] a1 f by simp
  have m2: "as_analysis (mk_source 2) (mk_analysis 2 2 ''a2'' 4) \<in> set ans"
    using has[rule_format, of 1 "mk_analysis 2 2 ''a2'' 4"] a2 f by simp
  have m5: "5 \<notin> sourceId ` set ans"
    using skip a5 i5 by simp
  have p: "projr (fst (ensureSourceAnalyses no_faults (map Some ?srcs) member_store)) = ans"
    using r by simp
  let ?c = "\<lparr>sc_id = 1, sc_organization_id = 3, sc_title = ''Ground ops'',
             sc_description = ''Sources'', sc_status = Building,
             sc_analysis_completed_at = None\<rparr>"
  let ?given = "[as_analysis (mk_source 1) (mk_analysis 1 1 ''a1'' 3),
                 as_analysis (mk_source 2) (mk_analysis 2 2 ''a2'' 4)]"
  let ?d2 = "snd (ensureSourceAnalyses no_faults (memberSources member_store 1) (tick member_store))"
  have h1: "no_faults (calls member_store) = None" by (rule f)
  have h2: "single (filter (\<lambda>r. sc_id r = 1) (source_collections member_store)) = Some ?c"
    by code_simp
  have h3: "ensureSourceAnalyses no_faults (memberSources member_store 1) (tick member_store)
              = (Inr ?given, ?d2)"
    by code_simp
  have syn: "synthesizeAcrossAnalyses adapters_ok ?given (memberSources member_store 1)
               = Inr \<lparr>sourceContributions = [1, 2], synthesisStrategy = ''strategy'',
                        synthesisBody = ''{}''\<rparr>"
    by code_simp
  have ok: "no_faults (calls ?d2) = None" by (rule f)
  have q: "map_sum id (\<lambda>saved. (sourceContributions (ca_analysis_data saved), ca_sources_analyzed saved))
             (fst (analyzeSteps no_faults adapters_ok 1 member_store)) = Inr ([1, 2], 2)"
    using ensureSourceAnalyses_input[where fl = no_faults and dc = member_store and cid = 1
            and c = ?c and given = ?given and dn = ?d2 and ad = adapters_ok,
            THEN conjunct2, THEN mp, OF conjI[OF h1 conjI[OF h2 h3]]] syn ok
    by (auto split: sum.splits)
  from m1 m2 m5 p q show ?thesis by simp
qed

text \<open>
  Claim C6 as stated fails: the member source 1 has a Content Analysis row, its lookup
  (round trip 11) fails, and the synthesis runs over source 2 alone.
\<close>

theorem analysed_source_skipped_on_failed_lookup:
  "memberSources member_store 1 = [Some (mk_source 1), Some (mk_source 2)] \<and>
   analyses_of member_store 1 = [mk_analysis 1 1 ''a1'' 3] \<and>
   fst (ensureSourceAnalyses (fail_at 11) (memberSources member_store 1) (tick member_store))
     = Inr [as_analysis (mk_source 2) (mk_analysis 2 2 ''a2'' 4)] \<and>
   map_sum id ca_sources_analyzed (fst (analyzeCollection (fail_at 11) adapters_ok 1 member_store))
     = Inr 1 \<and>
   map_sum id (\<lambda>r. sourceContributions (ca_analysis_data r))
     (fst (analyzeCollection (fail_at 11) adapters_ok 1 member_store)) = Inr [2]"
  by code_simp

section \<open>The outcome of \<^verbatim>\<open>analyzeCollection\<close>\<close>



lemma find_map_keep_sc_id:
  assumes "\<And>r. sc_id (g r) = sc_id r"
  shows "find (\<lambda>r. sc_id r = k) (map g xs) = map_option g (find (\<lambda>r. sc_id r = k) xs)"
  using assms by (induction xs) auto

lemma find_update_collection:
  assumes "\<And>r. sc_id (f r) = sc_id r"
  shows "find (\<lambda>r. sc_id r = cid) (source_collections (snd (update_collection fl cid f d))) =
           (case fl (calls d) of
              Some m \<Rightarrow> find (\<lambda>r. sc_id r = cid) (source_collections d)
            | None \<Rightarrow> map_option f (find (\<lambda>r. sc_id r = cid) (source_collections d)))"
proof -
  let ?g = "\<lambda>r. if sc_id r = cid then f r else r"
  have g: "\<And>r. sc_id (?g r) = sc_id r" using assms by simp
  have m: "find (\<lambda>r. sc_id r = cid) (map ?g (source_collections d))
             = map_option ?g (find (\<lambda>r. sc_id r = cid) (source_collections d))"
    by (rule find_map_keep_sc_id[of ?g, OF g])
  show ?thesis
  proof (cases "find (\<lambda>r. sc_id r = cid) (source_collections d)")
    case None
    then show ?thesis using m
      by (auto simp: update_collection_def tick_def split: option.splits)
  next
    case (Some r)
    then have "sc_id r = cid" by (auto simp: find_Some_iff)
    then show ?thesis using m Some
      by (auto simp: update_collection_def tick_def split: option.splits)
  qed
qed

lemma calls_update_collection: "calls (snd (update_collection fl cid f d)) = Suc (calls d)"
  by (simp add: update_collection_def tick_def split: option.splits)




lemma sc_update_collection_rejected:
  "fl (calls d) \<noteq> None \<Longrightarrow>
     source_collections (snd (update_collection fl cid f d)) = source_collections d"
  by (auto simp: update_collection_def tick_def split: option.splits)






section \<open>Linking a new source to its collection\<close>

lemma getMaxOrderIndex_value:
  "getMaxOrderIndex fl cid d = (mx, d') \<Longrightarrow>
     d' = tick d \<and>
     mx = (if fl (calls d) \<noteq> None \<or> filter (\<lambda>r. cs_collection_id r = cid) (collection_sources d) = []
           then - 1
           else Max (cs_order_index ` set (filter (\<lambda>r. cs_collection_id r = cid) (collection_sources d))))"
proof -
  let ?rows = "filter (\<lambda>r. cs_collection_id r = cid) (collection_sources d)"
  assume run: "getMaxOrderIndex fl cid d = (mx, d')"
  show ?thesis
  proof (cases "fl (calls d) \<noteq> None \<or> ?rows = []")
    case True
    then show ?thesis using run
      by (auto simp: getMaxOrderIndex_def select_single_def split: option.splits)
  next
    case False
    then obtain x where x: "x \<in> set ?rows" "\<forall>y \<in> set ?rows. cs_order_index y \<le> cs_order_index x"
        "single (order_desc_limit1 cs_order_index ?rows) = Some x"
      using order_desc_limit1_single[of ?rows cs_order_index] by blast
    have "Max (cs_order_index ` set ?rows) = cs_order_index x"
      by (rule Max_eqI) (use x in auto)
    then show ?thesis using run False x(3)
      by (auto simp: getMaxOrderIndex_def select_single_def split: option.splits)
  qed
qed

lemma getCollectionOrgId_links:
  "getCollectionOrgId fl cid d = (x, d0) \<Longrightarrow>
     collection_sources d0 = collection_sources d \<and> source_collections d0 = source_collections d"
  by (auto simp: getCollectionOrgId_def select_single_def tick_def split: option.splits)

lemma insert_source_links:
  "insert_source fl row d = (r, d1) \<Longrightarrow>
     collection_sources d1 = collection_sources d \<and> source_collections d1 = source_collections d"
  by (auto simp: insert_source_def tick_def Let_def split: option.splits)

lemma analyzeForCollection_links:
  "analyzeForCollection fl ad source url ty buf name d1 = (r, d2) \<Longrightarrow>
     collection_sources d2 = collection_sources d1 \<and> source_collections d2 = source_collections d1"
  by (auto simp: analyzeForCollection_def insert_analysis_def update_source_def tick_def Let_def
        split: option.splits sum.splits if_splits)

lemma insert_link_Inr:
  "insert_link fl row d = (Inr link, d') \<Longrightarrow>
     collection_sources d' = collection_sources d @ [link] \<and>
     source_collections d' = source_collections d \<and> calls d' = Suc (calls d) \<and>
     cs_collection_id link = cs_collection_id row \<and> cs_source_id link = cs_source_id row \<and>
     cs_order_index link = cs_order_index row"
  by (auto simp: insert_link_def tick_def Let_def split: option.splits)

lemma update_source_links:
  "collection_sources (snd (update_source fl sid f d)) = collection_sources d \<and>
   source_collections (snd (update_source fl sid f d)) = source_collections d \<and>
   calls (snd (update_source fl sid f d)) = Suc (calls d)"
  by (simp add: update_source_def tick_def split: option.splits)

lemma links_update_collection:
  "collection_sources (snd (update_collection fl cid f d)) = collection_sources d"
  by (simp add: update_collection_def tick_def split: option.splits)

lemma addSourceSteps_Inr:
  assumes run: "addSourceSteps fl ad cid url ty buf name d = (Inr sid, d')"
  shows "\<exists>d2 mx link d4.
           collection_sources d2 = collection_sources d \<and>
           source_collections d2 = source_collections d \<and>
           getMaxOrderIndex fl cid d2 = (mx, tick d2) \<and>
           insert_link fl \<lparr>cs_id = 0, cs_collection_id = cid, cs_source_id = sid,
                            cs_order_index = mx + 1\<rparr> (tick d2) = (Inr link, d4) \<and>
           d' = snd (update_collection fl cid (\<lambda>r. r\<lparr>sc_status := Building\<rparr>)
                  (snd (update_source fl sid (\<lambda>r. r\<lparr>s_status := Completed\<rparr>) d4)))"
proof -
  let ?title0 = "if truthy name then the name else url"
  let ?title = "if ty = Youtube
                then (case getMetadata ad url of Inr t \<Rightarrow> t | Inl e \<Rightarrow> ?title0)
                else ?title0"
  obtain org d0 where g: "getCollectionOrgId fl cid d = (org, d0)"
    by (cases "getCollectionOrgId fl cid d")
  note a0 = getCollectionOrgId_links[OF g]
  let ?row = "\<lparr>s_id = 0, s_organization_id = org, s_source_type = ty,
               s_source_url = url, s_title = ?title, s_status = Processing,
               s_updated_at = 0\<rparr>"
  obtain r1 d1 where i: "insert_source fl ?row d0 = (r1, d1)"
    by (cases "insert_source fl ?row d0")
  note a1 = insert_source_links[OF i]
  show ?thesis
  proof (cases r1)
    case (Inl m)
    then have "addSourceSteps fl ad cid url ty buf name d = (Inl (StoreError m), d1)"
      using g i by (simp add: addSourceSteps_def Let_def)
    then show ?thesis using run by simp
  next
    case (Inr source)
    obtain r2 d2 where an: "analyzeForCollection fl ad source url ty buf name d1 = (r2, d2)"
      by (cases "analyzeForCollection fl ad source url ty buf name d1")
    note a2 = analyzeForCollection_links[OF an]
    show ?thesis
    proof (cases r2)
      case (Inl e)
      then have "addSourceSteps fl ad cid url ty buf name d = (Inl e, d2)"
        using g i Inr an by (simp add: addSourceSteps_def Let_def)
      then show ?thesis using run by simp
    next
      case u: (Inr u)
      obtain mx d3 where gm: "getMaxOrderIndex fl cid d2 = (mx, d3)"
        by (cases "getMaxOrderIndex fl cid d2")
      then have d3: "d3 = tick d2" using getMaxOrderIndex_value by blast
      let ?link = "\<lparr>cs_id = 0, cs_collection_id = cid, cs_source_id = s_id source,
                    cs_order_index = mx + 1\<rparr>"
      obtain r4 d4 where il: "insert_link fl ?link d3 = (r4, d4)"
        by (cases "insert_link fl ?link d3")
      show ?thesis
      proof (cases r4)
        case (Inl m)
        then have "addSourceSteps fl ad cid url ty buf name d = (Inl (StoreError m), d4)"
          using g i Inr an u gm il by (simp add: addSourceSteps_def Let_def)
        then show ?thesis using run by simp
      next
        case l: (Inr link)
        let ?d6 = "snd (update_collection fl cid (\<lambda>r. r\<lparr>sc_status := Building\<rparr>)
                     (snd (update_source fl (s_id source) (\<lambda>r. r\<lparr>s_status := Completed\<rparr>) d4)))"
        have "addSourceSteps fl ad cid url ty buf name d = (Inr (s_id source), ?d6)"
          using g i Inr an u gm il l by (simp add: addSourceSteps_def Let_def)
        then have sid: "sid = s_id source" and d': "d' = ?d6" using run by simp_all
        show ?thesis
          apply (rule exI[of _ d2], rule exI[of _ mx], rule exI[of _ link], rule exI[of _ d4])
          using a0 a1 a2 gm d3 il l sid d' by simp
      qed
    qed
  qed
qed


text \<open>
  Claim C7, as the code has it. A successful \<^verbatim>\<open>addSourceToCollection\<close> ends with four
  round trips: the read of the greatest order index, the insert of the link, and the two
  status writes; \<open>fl (calls d' - 4)\<close> says whether the store failed the read and
  \<open>fl (calls d' - 1)\<close> whether it rejected the write of the collection status, and the
  code looks at neither result. The run appends exactly one link, from the collection to
  the new source; its order index is the greatest order index of the collection's links
  plus one when the read is answered and the collection has links, and 0 when the
  collection has none or the read fails. The collection's status is \<^verbatim>\<open>building\<close>
  afterwards, whatever it was, when the store accepts the write, and is what it was when
  the store rejects it.
\<close>

theorem addSource_links_next_index:
  assumes run: "addSourceToCollection fl ad cid url ty buf name d = (Inr sid, d')"
  shows "(\<exists>link. collection_sources d' = collection_sources d @ [link] \<and>
            cs_collection_id link = cid \<and> cs_source_id link = sid \<and>
            cs_order_index link =
              (if fl (calls d' - 4) \<noteq> None \<or>
                  filter (\<lambda>r. cs_collection_id r = cid) (collection_sources d) = []
               then 0
               else Max (cs_order_index `
                           set (filter (\<lambda>r. cs_collection_id r = cid) (collection_sources d))) + 1)) \<and>
         (fl (calls d' - 1) = None \<longrightarrow>
            collection_status_of d' cid = map_option (\<lambda>s. Building) (collection_status_of d cid)) \<and>
         (fl (calls d' - 1) \<noteq> None \<longrightarrow>
            collection_status_of d' cid = collection_status_of d cid)"
proof -
  have st: "addSourceSteps fl ad cid url ty buf name d = (Inr sid, d')"
    using run by (auto simp: addSourceToCollection_def split: prod.splits sum.splits)
  obtain d2 mx link d4 where
        cs2: "collection_sources d2 = collection_sources d"
    and sc2: "source_collections d2 = source_collections d"
    and gm: "getMaxOrderIndex fl cid d2 = (mx, tick d2)"
    and il: "insert_link fl \<lparr>cs_id = 0, cs_collection_id = cid, cs_source_id = sid,
                              cs_order_index = mx + 1\<rparr> (tick d2) = (Inr link, d4)"
    and d': "d' = snd (update_collection fl cid (\<lambda>r. r\<lparr>sc_status := Building\<rparr>)
                    (snd (update_source fl sid (\<lambda>r. r\<lparr>s_status := Completed\<rparr>) d4)))"
    using addSourceSteps_Inr[OF st] by blast
  let ?d5 = "snd (update_source fl sid (\<lambda>r. r\<lparr>s_status := Completed\<rparr>) d4)"
  note l = insert_link_Inr[OF il]
  note m = getMaxOrderIndex_value[OF gm]
  have c4: "calls d4 = calls d2 + 2" using l by (simp add: tick_def)
  have c5: "calls ?d5 = calls d2 + 3" using c4 by (simp add: update_source_links)
  have c': "calls d' = calls d2 + 4" using c5 d' by (simp add: calls_update_collection)
  have links: "collection_sources d' = collection_sources d @ [link]"
    using d' l cs2 by (simp add: links_update_collection update_source_links tick_def)
  have idx: "cs_order_index link =
              (if fl (calls d' - 4) \<noteq> None \<or>
                  filter (\<lambda>r. cs_collection_id r = cid) (collection_sources d) = []
               then 0
               else Max (cs_order_index `
                           set (filter (\<lambda>r. cs_collection_id r = cid) (collection_sources d))) + 1)"
    using l m c' cs2 by (simp split: if_splits)
  have sc5: "source_collections ?d5 = source_collections d"
    using l sc2 by (simp add: update_source_links tick_def)
  have w: "calls d' - 1 = calls ?d5" using c5 c' by simp
  have s1': "fl (calls ?d5) = None \<longrightarrow>
            collection_status_of d' cid = map_option (\<lambda>s. Building) (collection_status_of d cid)"
    unfolding d' collection_status_of_def
    by (simp add: find_update_collection sc5 option.map_comp comp_def)
  have s2': "fl (calls ?d5) \<noteq> None \<longrightarrow>
            collection_status_of d' cid = collection_status_of d cid"
    unfolding d' collection_status_of_def
    by (auto simp: sc_update_collection_rejected sc5)
  have s1: "fl (calls d' - 1) = None \<longrightarrow>
            collection_status_of d' cid = map_option (\<lambda>s. Building) (collection_status_of d cid)"
    using s1' unfolding w .
  have s2: "fl (calls d' - 1) \<noteq> None \<longrightarrow>
            collection_status_of d' cid = collection_status_of d cid"
    using s2' unfolding w .
  from links l idx s1 s2 show ?thesis by simp
qed

text \<open>
  The theorem at a successful addSource to a \<^verbatim>\<open>ready\<close> collection whose links have the
  order indices 0 and 1.
\<close>

theorem addSource_links_next_index_witness:
  "map cs_order_index
     (collection_sources
        (snd (addSourceToCollection no_faults adapters_ok 1 ''new.pdf'' Pdf (Some ''bytes'')
                (Some ''new.pdf'') (member_store\<lparr>source_collections :=
                   map (\<lambda>r. r\<lparr>sc_status := Ready\<rparr>) (source_collections member_store)\<rparr>))))
     = [0, 1, 2] \<and>
   collection_status_of
     (snd (addSourceToCollection no_faults adapters_ok 1 ''new.pdf'' Pdf (Some ''bytes'')
             (Some ''new.pdf'') (member_store\<lparr>source_collections :=
                   map (\<lambda>r. r\<lparr>sc_status := Ready\<rparr>) (source_collections member_store)\<rparr>))) 1
     = Some Building"
proof -
  let ?d = "member_store\<lparr>source_collections :=
                   map (\<lambda>r. r\<lparr>sc_status := Ready\<rparr>) (source_collections member_store)\<rparr>"
  let ?d' = "snd (addSourceToCollection no_faults adapters_ok 1 ''new.pdf'' Pdf (Some ''bytes'')
                (Some ''new.pdf'') ?d)"
  have r: "addSourceToCollection no_faults adapters_ok 1 ''new.pdf'' Pdf (Some ''bytes'')
             (Some ''new.pdf'') ?d = (Inr 3, ?d')"
    by code_simp
  have f: "\<And>n. no_faults n = None" by (simp add: no_faults_def)
  have rows: "filter (\<lambda>r. cs_collection_id r = 1) (collection_sources ?d)
                = [mk_link 1 1 1 0, mk_link 2 1 2 1]"
    and old: "map cs_order_index (collection_sources ?d) = [0, 1]"
    and st: "collection_status_of ?d 1 = Some Ready"
    by code_simp+
  have mx: "Max (cs_order_index ` set [mk_link 1 1 1 0, mk_link 2 1 2 1]) = 1"
    by (simp add: mk_link_def)
  from addSource_links_next_index[OF r] f rows mx old st show ?thesis
    by auto
qed

text \<open>
  Claim C7 as stated fails. When the store rejects the write of the collection status,
  addSource still returns the new source's id and the collection stays \<^verbatim>\<open>ready\<close>. When
  the read of the greatest order index fails, addSource still succeeds and links the
  source at index 0 in a collection whose greatest index is 1.
\<close>

theorem addSource_rejected_writes:
  "fst (addSourceToCollection (fail_at 16) adapters_ok 1 ''new.pdf'' Pdf (Some ''bytes'')
          (Some ''new.pdf'') collection_store) = Inr 1 \<and>
   collection_status_of
     (snd (addSourceToCollection (fail_at 16) adapters_ok 1 ''new.pdf'' Pdf (Some ''bytes'')
             (Some ''new.pdf'') collection_store)) 1 = Some Ready \<and>
   fst (addSourceToCollection (fail_at 13) adapters_ok 1 ''new.pdf'' Pdf (Some ''bytes'')
          (Some ''new.pdf'') member_store) = Inr 3 \<and>
   map cs_order_index
     (collection_sources
        (snd (addSourceToCollection (fail_at 13) adapters_ok 1 ''new.pdf'' Pdf (Some ''bytes'')
                (Some ''new.pdf'') member_store))) = [0, 1, 0]"
  by code_simp

section \<open>Validation of the generated lesson tree\<close>

text \<open>
  Claim C2 at a failing input. The generation adapter returns a lesson whose only module
  has no objectives. \<^verbatim>\<open>validateLesson\<close>, which the sibling lesson service runs on
  every parsed lesson, rejects it; the single-source pipeline and the collection pipeline
  run no validation: both runs succeed and the Course and Module rows are persisted, where
  the claim has the run fail with no Course row.
\<close>

theorem invalid_lesson_is_persisted:
  "validateLesson lesson_without_objectives
     = Inl (Error (''Module '' @ [CHR 0x22] @ ''Intro'' @ [CHR 0x22] @ '' has no objectives'')) \<and>
   map_sum id fst
     (fst (processSourceToLesson no_faults
             (adapters_ok\<lparr>generateLesson := (\<lambda>an title. Inr lesson_without_objectives)\<rparr>)
             ''https://www.youtube.com/watch?v=dQw4w9WgXcQ'' Youtube 3 None None empty_store))
     = Inr 1 \<and>
   map c_title
     (courses (snd (processSourceToLesson no_faults
                      (adapters_ok\<lparr>generateLesson := (\<lambda>an title. Inr lesson_without_objectives)\<rparr>)
                      ''https://www.youtube.com/watch?v=dQw4w9WgXcQ'' Youtube 3 None None
                      empty_store))) = [''Ramp safety''] \<and>
   map mo_title
     (modules (snd (processSourceToLesson no_faults
                      (adapters_ok\<lparr>generateLesson := (\<lambda>an title. Inr lesson_without_objectives)\<rparr>)
                      ''https://www.youtube.com/watch?v=dQw4w9WgXcQ'' Youtube 3 None None
                      empty_store))) = [''Intro''] \<and>
   learning_objectives
     (snd (processSourceToLesson no_faults
             (adapters_ok\<lparr>generateLesson := (\<lambda>an title. Inr lesson_without_objectives)\<rparr>)
             ''https://www.youtube.com/watch?v=dQw4w9WgXcQ'' Youtube 3 None None
             empty_store)) = [] \<and>
   map_sum id fst
     (fst (processCollectionToLesson no_faults
             (adapters_ok\<lparr>lessonFromSynthesis := (\<lambda>c srcs syn. Inr lesson_without_objectives)\<rparr>)
             1 3 member_store)) = Inr 1 \<and>
   map c_title
     (courses (snd (processCollectionToLesson no_faults
                      (adapters_ok\<lparr>lessonFromSynthesis := (\<lambda>c srcs syn. Inr lesson_without_objectives)\<rparr>)
                      1 3 member_store))) = [''Ramp safety'']"
  by code_simp

end
